theory Spec2Isabelle
  imports Complex_Main
begin

section \<open>Strings as the program uses them\<close>

text \<open>
  A Python \<open>str\<close> is modelled as a \<open>string\<close> (a list of \<open>char\<close>), each \<open>char\<close> standing
  for one code point below 256. \<open>s.endswith(suf)\<close>, \<open>s[:-n]\<close> for a positive \<open>n\<close>,
  \<open>s.strip()\<close> and \<open>s.split(sep)\<close> are written out below.
\<close>

definition endswith :: "string \<Rightarrow> string \<Rightarrow> bool" where
  "endswith s suf =
     (length suf \<le> length s \<and> drop (length s - length suf) s = suf)"

text \<open>\<open>base[:-n]\<close> with \<open>n > 0\<close>: everything but the last \<open>n\<close> characters (empty when
  the string is shorter than \<open>n\<close>).\<close>

definition drop_last :: "nat \<Rightarrow> string \<Rightarrow> string" where
  "drop_last n s = take (length s - n) s"

text \<open>\<open>str.isspace\<close> on the code points below 256: tab, line feed, vertical tab, form
  feed, carriage return, the four separators 28 to 31, space, NEL (133) and the no-break
  space (160).\<close>

definition isspace :: "char \<Rightarrow> bool" where
  "isspace c =
     (let n = (of_char c :: nat)
      in (9 \<le> n \<and> n \<le> 13) \<or> (28 \<le> n \<and> n \<le> 32) \<or> n = 133 \<or> n = 160)"

definition strip :: "string \<Rightarrow> string" where
  "strip s = rev (dropWhile isspace (rev (dropWhile isspace s)))"

text \<open>\<open>s.split(sep)\<close> for a one-character separator: the pieces between the separators,
  always at least one piece.\<close>

fun split_on :: "char \<Rightarrow> string \<Rightarrow> string list" where
  "split_on sep [] = [[]]"
| "split_on sep (c # cs) =
     (if c = sep then [] # split_on sep cs
      else (case split_on sep cs of
              [] \<Rightarrow> [[c]]
            | p # ps \<Rightarrow> (c # p) # ps))"

section \<open>Deriving the activity identifier from a file name\<close>

text \<open>
  \<^verbatim>\<open>
  def infer_activity_id_from_filename(filename):
      base = filename
      for ext in ('.fit.gz', '.gpx.gz', '.tcx.gz'):
          if base.endswith(ext):
              return base[:-len(ext)]
      for ext in ('.fit', '.gpx', '.tcx'):
          if base.endswith(ext):
              return base[:-len(ext)]
      return base
  \<close>
  Each \<open>for\<close> loop is a recursion over its tuple of extensions; \<open>None\<close> stands for a loop
  that ran to its end without returning.
\<close>

definition double_exts :: "string list" where
  "double_exts = [''.fit.gz'', ''.gpx.gz'', ''.tcx.gz'']"

definition single_exts :: "string list" where
  "single_exts = [''.fit'', ''.gpx'', ''.tcx'']"

fun strip_first_ext :: "string \<Rightarrow> string list \<Rightarrow> string option" where
  "strip_first_ext base [] = None"
| "strip_first_ext base (ext # exts) =
     (if endswith base ext then Some (drop_last (length ext) base)
      else strip_first_ext base exts)"

definition infer_activity_id_from_filename :: "string \<Rightarrow> string" where
  "infer_activity_id_from_filename filename =
     (let base = filename
      in case strip_first_ext base double_exts of
           Some r \<Rightarrow> r
         | None \<Rightarrow>
             (case strip_first_ext base single_exts of
                Some r \<Rightarrow> r
              | None \<Rightarrow> base))"

section \<open>The metadata index\<close>

text \<open>
  \<open>ActivityMeta\<close> is the dataclass of the source; a \<open>Path\<close> is kept as its string. A row
  of \<open>csv.DictReader\<close> is a record of the five columns the program reads, each \<open>None\<close>
  when \<open>row.get\<close> gives \<open>None\<close>.
\<close>

record ActivityMeta =
  activity_id :: string
  name :: string
  description :: string
  media_paths :: "string list"

record csv_row =
  col_activity_id :: "string option"
  col_activity_name :: "string option"
  col_activity_description :: "string option"
  col_media :: "string option"
  col_filename :: "string option"

type_synonym meta_index = "string \<rightharpoonup> ActivityMeta"

text \<open>\<open>(row.get(col) or '').strip()\<close>\<close>

definition cell :: "string option \<Rightarrow> string" where
  "cell v = strip (case v of None \<Rightarrow> [] | Some s \<Rightarrow> s)"

text \<open>\<open>Path(filename).name\<close> on POSIX paths: the last component that is neither empty nor
  a single dot, and the empty string when there is none.\<close>

definition path_name :: "string \<Rightarrow> string" where
  "path_name p =
     (case filter (\<lambda>c. c \<noteq> [] \<and> c \<noteq> ''.'') (split_on CHR ''/'' p) of
        [] \<Rightarrow> []
      | c # cs \<Rightarrow> last (c # cs))"

text \<open>
  A \<open>Path\<close> is kept as the string \<open>str\<close> gives for it. On POSIX paths pathlib keeps a root
  (\<open>/\<close>, or \<open>//\<close> for exactly two leading slashes) and the components that are neither
  empty nor a single dot, and prints the root followed by the components joined by
  slashes, or a single dot when there is neither. \<open>media_base / part\<close>: an absolute part
  replaces the base, otherwise its components follow those of the base.
\<close>

definition path_root :: "string \<Rightarrow> string" where
  "path_root p =
     (if takeWhile (\<lambda>ch. ch = CHR ''/'') p = ''//'' then ''//''
      else if takeWhile (\<lambda>ch. ch = CHR ''/'') p \<noteq> [] then ''/''
      else [])"

definition path_parts :: "string \<Rightarrow> string list" where
  "path_parts p = filter (\<lambda>c. c \<noteq> [] \<and> c \<noteq> ''.'') (split_on CHR ''/'' p)"

fun join_parts :: "string list \<Rightarrow> string" where
  "join_parts [] = []"
| "join_parts [c] = c"
| "join_parts (c # d # cs) = c @ ''/'' @ join_parts (d # cs)"

definition path_str :: "string \<Rightarrow> string list \<Rightarrow> string" where
  "path_str root_part comps =
     (if root_part = [] \<and> comps = [] then ''.'' else root_part @ join_parts comps)"

definition path_join :: "string \<Rightarrow> string \<Rightarrow> string" where
  "path_join base part =
     (if path_root part \<noteq> [] then path_str (path_root part) (path_parts part)
      else path_str (path_root base) (path_parts base @ path_parts part))"

text \<open>\<open>mapping.setdefault(key, value)\<close>: the value is stored only when the key is absent.\<close>

definition setdefault :: "meta_index \<Rightarrow> string \<Rightarrow> ActivityMeta \<Rightarrow> meta_index" where
  "setdefault mapping key val =
     (case mapping key of None \<Rightarrow> mapping(key \<mapsto> val) | Some _ \<Rightarrow> mapping)"

definition metadata_exts :: "string list" where
  "metadata_exts = [''.fit.gz'', ''.gpx.gz'', ''.tcx.gz'', ''.fit'', ''.gpx'', ''.tcx'']"

text \<open>
  \<^verbatim>\<open>
  for ext in ('.fit.gz', '.gpx.gz', '.tcx.gz', '.fit', '.gpx', '.tcx'):
      if base.endswith(ext):
          file_id = base[:-len(ext)]
          if file_id:
              mapping.setdefault(file_id, meta)
          break
  \<close>
\<close>

fun index_by_filename ::
  "meta_index \<Rightarrow> string \<Rightarrow> ActivityMeta \<Rightarrow> string list \<Rightarrow> meta_index" where
  "index_by_filename mapping base meta [] = mapping"
| "index_by_filename mapping base meta (ext # exts) =
     (if endswith base ext then
        (let file_id = drop_last (length ext) base
         in if file_id \<noteq> [] then setdefault mapping file_id meta else mapping)
      else index_by_filename mapping base meta exts)"

text \<open>The record built from one row whose stripped identifier is \<open>act_id\<close>.\<close>

definition build_meta :: "string \<Rightarrow> string \<Rightarrow> csv_row \<Rightarrow> ActivityMeta" where
  "build_meta media_base act_id row =
     (let nm = cell (col_activity_name row);
          descr = cell (col_activity_description row);
          media_field = cell (col_media row);
          paths = (if media_field \<noteq> []
                   then map (path_join media_base) (split_on CHR ''|'' media_field)
                   else [])
      in \<lparr>activity_id = act_id,
          name = (if nm \<noteq> [] then nm else ''Activity '' @ act_id),
          description = descr,
          media_paths = paths\<rparr>)"

text \<open>The body of the loop over the rows: a row without identifier is passed over.\<close>

definition load_row :: "string \<Rightarrow> meta_index \<Rightarrow> csv_row \<Rightarrow> meta_index" where
  "load_row media_base mapping row =
     (let act_id = cell (col_activity_id row)
      in if act_id = [] then mapping
         else
           (let meta = build_meta media_base act_id row;
                mapping1 = setdefault mapping act_id meta;
                filename = cell (col_filename row)
            in if filename \<noteq> []
               then index_by_filename mapping1 (path_name filename) meta metadata_exts
               else mapping1))"

fun load_rows :: "string \<Rightarrow> meta_index \<Rightarrow> csv_row list \<Rightarrow> meta_index" where
  "load_rows media_base mapping [] = mapping"
| "load_rows media_base mapping (row # rows) =
     load_rows media_base (load_row media_base mapping row) rows"

datatype error =
    FileNotFoundError
  | CredentialsRequired
  | AuthFailed int
  | AuthTokenNotFound
  | RequestException
  | FileReadError
  | ResponseShapeError
  | ValueError
  | OverflowError

text \<open>\<open>load_activity_metadata\<close>: the rows are \<open>None\<close> when the CSV file does not exist.\<close>

definition load_activity_metadata :: "csv_row list option \<Rightarrow> string \<Rightarrow> error + meta_index" where
  "load_activity_metadata csv media_base =
     (case csv of
        None \<Rightarrow> Inl FileNotFoundError
      | Some rows \<Rightarrow> Inr (load_rows media_base Map.empty rows))"

text \<open>
  The keys one row asks to be indexed under, in the order the row tries them: its stripped
  identifier, then the stem derived from its file name when there is a non-empty one. A row
  without identifier asks for none.
\<close>

definition derived_stem :: "csv_row \<Rightarrow> string option" where
  "derived_stem row =
     (let filename = cell (col_filename row)
      in if filename = [] then None
         else strip_first_ext (path_name filename) metadata_exts)"

definition row_keys :: "csv_row \<Rightarrow> string list" where
  "row_keys row =
     (let act_id = cell (col_activity_id row)
      in if act_id = [] then []
         else act_id # (case derived_stem row of
                          None \<Rightarrow> []
                        | Some file_id \<Rightarrow> if file_id \<noteq> [] then [file_id] else []))"

definition row_meta :: "string \<Rightarrow> csv_row \<Rightarrow> ActivityMeta" where
  "row_meta media_base row = build_meta media_base (cell (col_activity_id row)) row"

section \<open>The client of the remote service\<close>

text \<open>
  The program talks to the outside world through \<open>requests\<close>, the clock and the file system.
  What the outside world answers is an input of the model (a \<open>file_env\<close> per activity file);
  what the program does to it is recorded in the \<open>run_state\<close>: the requests it has sent, in
  order, and the lines it has appended to the uploaded log. A raised exception is the
  outcome \<open>Raised\<close>, carried together with the state reached when it was raised.
\<close>

datatype request =
    GetCurrentUser
  | PostTrip string
  | GetTaskStatus int
  | PostPhoto int string

datatype 'a outcome = Returned 'a | Raised error

text \<open>Answer to \<open>GET /users/current.json\<close>: the request raises, or gives a status code and a
  body; the body either cannot be read as an object holding a \<open>user\<close> object (\<open>r.json()\<close> or
  \<open>.get\<close> raise), or gives \<open>data.get("user", {}).get("auth_token")\<close>.\<close>

datatype auth_body = AuthBodyUnreadable | AuthBody "string option"
datatype auth_reply = AuthRaised | AuthHttp int auth_body

text \<open>Answer to \<open>POST /trips.json\<close>: the body is not JSON, is JSON but no object, or is an
  object with \<open>resp.get('task_id')\<close>.\<close>

datatype post_body = PostNotJson | PostNotDict | PostDict "int option"
datatype post_reply = PostRaised | PostHttp int post_body

text \<open>One entry of \<open>associated_objects\<close> and one entry of \<open>queued_tasks\<close>. \<open>obj_trip_id\<close>
  is \<open>(obj.get('trip') or {}).get('id')\<close>.\<close>

record associated_object =
  obj_type :: "string option"
  obj_trip_id :: "int option"

record task =
  task_status :: "string option"
  response_code :: "string option"
  message :: "string option"
  associated_objects :: "associated_object list"

text \<open>Answer to \<open>GET /queued_tasks/status.json\<close>. \<open>StatusTasks\<close> holds
  \<open>data.get('queued_tasks') or []\<close>; \<open>StatusBadShape\<close> is a JSON body on which the accesses of
  the loop body raise (no object where one is expected).\<close>

datatype status_body = StatusNotJson | StatusBadShape | StatusTasks "task list"
datatype status_reply = StatusRaised | StatusHttp int status_body

datatype photo_reply = PhotoRaised | PhotoHttp int

text \<open>
  The outside world as one activity file meets it. \<open>poll_ticks\<close> lists, for the successive
  evaluations of the loop condition of \<open>poll_task_for_trip\<close>, the reading of \<open>time.time()\<close>
  there and the answer the status request of that round gets if it is sent; \<open>poll_started\<close>
  is the reading from which the deadline is computed. The list is finite: a run that needs
  more rounds than it describes has no result in the model (\<open>None\<close>).
\<close>

record file_env =
  auth_reply :: auth_reply
  file_readable :: bool
  post_reply :: post_reply
  poll_started :: real
  poll_ticks :: "(real \<times> status_reply) list"
  media_exists :: "string \<Rightarrow> bool"
  photo_readable :: "string \<Rightarrow> bool"
  photo_reply :: "string \<Rightarrow> photo_reply"

text \<open>The fields of \<open>RWGPSClient\<close> that decide what it does; \<open>auth_token\<close> is the one field
  the methods assign, so it lives in the state. The base URL, the versions and the debug
  flag only shape the URLs and the printed lines.\<close>

record RWGPSClient =
  api_key :: string
  email :: "string option"
  password :: "string option"
  dry_run :: bool

record run_state =
  auth_token :: "string option"
  requests :: "request list"
  uploaded_log :: "string list"
  successes :: nat
  skipped :: nat
  errors :: nat

definition DUPLICATE_TRIP :: int where
  "DUPLICATE_TRIP = - 2"

text \<open>Truth value of an optional string: \<open>None\<close> and the empty string are false.\<close>

definition truthy :: "string option \<Rightarrow> bool" where
  "truthy v = (case v of None \<Rightarrow> False | Some s \<Rightarrow> s \<noteq> [])"

definition send :: "request \<Rightarrow> run_state \<Rightarrow> run_state" where
  "send r st = st\<lparr>requests := requests st @ [r]\<rparr>"

definition ok_status :: "int \<Rightarrow> bool" where
  "ok_status code = (code = 200 \<or> code = 201 \<or> code = 202)"

definition ensure_auth :: "RWGPSClient \<Rightarrow> file_env \<Rightarrow> run_state \<Rightarrow> unit outcome \<times> run_state" where
  "ensure_auth c env st =
     (if truthy (auth_token st) then (Returned (), st)
      else if \<not> (truthy (email c) \<and> truthy (password c)) then (Raised CredentialsRequired, st)
      else if dry_run c then (Returned (), st\<lparr>auth_token := Some ''DUMMY_TOKEN''\<rparr>)
      else
        (let st1 = send GetCurrentUser st
         in case auth_reply env of
              AuthRaised \<Rightarrow> (Raised RequestException, st1)
            | AuthHttp code body \<Rightarrow>
                if code \<noteq> 200 then (Raised (AuthFailed code), st1)
                else
                  (case body of
                     AuthBodyUnreadable \<Rightarrow> (Raised ResponseShapeError, st1)
                   | AuthBody tok \<Rightarrow>
                       (let st2 = st1\<lparr>auth_token := tok\<rparr>
                        in if \<not> truthy tok then (Raised AuthTokenNotFound, st2)
                           else (Returned (), st2)))))"

text \<open>
  The two float options of the command line, \<open>--poll-interval\<close> and \<open>--poll-timeout\<close>, take
  every value \<open>float\<close> parses: a number, an infinity or NaN. A number is a real here (the
  rounding of float arithmetic is left out); a clock reading is always a number.
  \<open>float_add\<close> is \<open>time.time() + timeout\<close> and \<open>float_less\<close> is \<open>time.time() < deadline\<close>.
\<close>

datatype pyfloat = Finite real | PosInf | NegInf | NaN

definition float_add :: "real \<Rightarrow> pyfloat \<Rightarrow> pyfloat" where
  "float_add t x = (case x of Finite r \<Rightarrow> Finite (t + r) | PosInf \<Rightarrow> PosInf
                    | NegInf \<Rightarrow> NegInf | NaN \<Rightarrow> NaN)"

definition float_less :: "real \<Rightarrow> pyfloat \<Rightarrow> bool" where
  "float_less t x = (case x of Finite r \<Rightarrow> t < r | PosInf \<Rightarrow> True
                     | NegInf \<Rightarrow> False | NaN \<Rightarrow> False)"

text \<open>
  \<open>time.sleep(secs)\<close> returns only for a non-negative number of seconds that fits the
  64-bit count of nanoseconds; it raises \<open>ValueError\<close> for NaN and for a negative number,
  and \<open>OverflowError\<close> for an infinity and for a number out of that range. When it returns
  it only lets time pass, which the next clock reading shows.
\<close>

definition sleep_max :: real where
  "sleep_max = 9223372036854775807 / 1000000000"

definition time_sleep :: "pyfloat \<Rightarrow> unit outcome" where
  "time_sleep secs =
     (case secs of
        NaN \<Rightarrow> Raised ValueError
      | PosInf \<Rightarrow> Raised OverflowError
      | NegInf \<Rightarrow> Raised OverflowError
      | Finite r \<Rightarrow>
          if r < - sleep_max \<or> sleep_max < r then Raised OverflowError
          else if r < 0 then Raised ValueError
          else Returned ())"

text \<open>
  The scan of the associated objects of a task that reports success:
  \<^verbatim>\<open>
  for obj in task.get('associated_objects', []):
      if obj.get('type') == 'trip':
          trip = obj.get('trip') or {}
          trip_id = trip.get('id')
          if trip_id:
              return trip_id
  \<close>
\<close>

fun find_trip_id :: "associated_object list \<Rightarrow> int option" where
  "find_trip_id [] = None"
| "find_trip_id (obj # objs) =
     (if obj_type obj = Some ''trip'' then
        (case obj_trip_id obj of
           Some trip_id \<Rightarrow> if trip_id \<noteq> 0 then Some trip_id else find_trip_id objs
         | None \<Rightarrow> find_trip_id objs)
      else find_trip_id objs)"

text \<open>
  The loop of \<open>poll_task_for_trip\<close>, one round per element of the tick list. The result is
  the value returned (\<open>None\<close> of Python is \<open>None\<close>), or the exception raised. Every round
  that does not return ends in \<open>time.sleep(interval)\<close>, whose exception ends the poll.
\<close>

fun poll_loop ::
  "RWGPSClient \<Rightarrow> int \<Rightarrow> pyfloat \<Rightarrow> pyfloat \<Rightarrow> (real \<times> status_reply) list \<Rightarrow> run_state
     \<Rightarrow> (int option outcome \<times> run_state) option" where
  "poll_loop c task_id interval deadline [] st = None"
| "poll_loop c task_id interval deadline ((now, reply) # ticks) st =
     (if float_less now deadline then
        (if dry_run c then Some (Returned (Some (- 1)), st)
         else
           (let st1 = send (GetTaskStatus task_id) st
            in case reply of
                 StatusRaised \<Rightarrow>
                   (case time_sleep interval of
                      Raised e \<Rightarrow> Some (Raised e, st1)
                    | Returned _ \<Rightarrow> poll_loop c task_id interval deadline ticks st1)
               | StatusHttp code body \<Rightarrow>
                   if code \<noteq> 200 then
                     (case time_sleep interval of
                        Raised e \<Rightarrow> Some (Raised e, st1)
                      | Returned _ \<Rightarrow> poll_loop c task_id interval deadline ticks st1)
                   else
                     (case body of
                        StatusNotJson \<Rightarrow>
                          (case time_sleep interval of
                             Raised e \<Rightarrow> Some (Raised e, st1)
                           | Returned _ \<Rightarrow> poll_loop c task_id interval deadline ticks st1)
                      | StatusBadShape \<Rightarrow> Some (Raised ResponseShapeError, st1)
                      | StatusTasks qtasks \<Rightarrow>
                          (case qtasks of
                             [] \<Rightarrow>
                               (case time_sleep interval of
                                  Raised e \<Rightarrow> Some (Raised e, st1)
                                | Returned _ \<Rightarrow>
                                    poll_loop c task_id interval deadline ticks st1)
                           | tsk # _ \<Rightarrow>
                               if response_code tsk = Some ''success'' then
                                 (case find_trip_id (associated_objects tsk) of
                                    Some trip_id \<Rightarrow> Some (Returned (Some trip_id), st1)
                                  | None \<Rightarrow>
                                      (case time_sleep interval of
                                         Raised e \<Rightarrow> Some (Raised e, st1)
                                       | Returned _ \<Rightarrow>
                                           poll_loop c task_id interval deadline ticks st1))
                               else if response_code tsk = Some ''duplicate'' then
                                 Some (Returned (Some DUPLICATE_TRIP), st1)
                               else if response_code tsk = Some ''error''
                                       \<or> response_code tsk = Some ''failed'' then
                                 Some (Returned None, st1)
                               else
                                 (case time_sleep interval of
                                    Raised e \<Rightarrow> Some (Raised e, st1)
                                  | Returned _ \<Rightarrow>
                                      poll_loop c task_id interval deadline ticks st1)))))
      else Some (Returned None, st))"

definition poll_task_for_trip ::
  "RWGPSClient \<Rightarrow> int \<Rightarrow> pyfloat \<Rightarrow> pyfloat \<Rightarrow> file_env \<Rightarrow> run_state
     \<Rightarrow> (int option outcome \<times> run_state) option" where
  "poll_task_for_trip c task_id interval timeout env st =
     (let deadline = float_add (poll_started env) timeout
      in poll_loop c task_id interval deadline (poll_ticks env) st)"

text \<open>
  \<open>upload_trip_from_file\<close>: authenticate, read the file, stop here in a dry run, send the
  file, and poll when the answer names a task.
\<close>

definition upload_trip_from_file ::
  "RWGPSClient \<Rightarrow> string \<Rightarrow> pyfloat \<Rightarrow> pyfloat \<Rightarrow> file_env \<Rightarrow> run_state
     \<Rightarrow> (int option outcome \<times> run_state) option" where
  "upload_trip_from_file c file_name poll_interval poll_timeout env st =
     (case ensure_auth c env st of
        (Raised e, st1) \<Rightarrow> Some (Raised e, st1)
      | (Returned _, st1) \<Rightarrow>
          if \<not> file_readable env then Some (Raised FileReadError, st1)
          else if dry_run c then Some (Returned (Some (- 1)), st1)
          else
            (let st2 = send (PostTrip file_name) st1
             in case post_reply env of
                  PostRaised \<Rightarrow> Some (Raised RequestException, st2)
                | PostHttp code body \<Rightarrow>
                    if \<not> ok_status code then Some (Returned None, st2)
                    else
                      (case body of
                         PostNotJson \<Rightarrow> Some (Returned None, st2)
                       | PostNotDict \<Rightarrow> Some (Returned None, st2)
                       | PostDict None \<Rightarrow> Some (Returned None, st2)
                       | PostDict (Some task_id) \<Rightarrow>
                           if task_id \<noteq> 0
                           then poll_task_for_trip c task_id poll_interval poll_timeout env st2
                           else Some (Returned None, st2))))"

definition upload_photo ::
  "RWGPSClient \<Rightarrow> int \<Rightarrow> string \<Rightarrow> file_env \<Rightarrow> run_state \<Rightarrow> bool outcome \<times> run_state" where
  "upload_photo c trip_id photo_path env st =
     (if \<not> media_exists env photo_path then (Returned False, st)
      else
        (case ensure_auth c env st of
           (Raised e, st1) \<Rightarrow> (Raised e, st1)
         | (Returned _, st1) \<Rightarrow>
             if \<not> photo_readable env photo_path then (Raised FileReadError, st1)
             else if dry_run c then (Returned True, st1)
             else
               (let st2 = send (PostPhoto trip_id photo_path) st1
                in case photo_reply env photo_path of
                     PhotoRaised \<Rightarrow> (Raised RequestException, st2)
                   | PhotoHttp code \<Rightarrow> (Returned (ok_status code), st2))))"

text \<open>\<open>upload_media_for_trip\<close>: every photo is tried; an exception of one photo is caught
  and the loop goes on. Only the state is of interest, the count is printed.\<close>

fun upload_media_for_trip ::
  "RWGPSClient \<Rightarrow> int \<Rightarrow> string list \<Rightarrow> file_env \<Rightarrow> run_state \<Rightarrow> run_state" where
  "upload_media_for_trip c trip_id [] env st = st"
| "upload_media_for_trip c trip_id (m # media_list) env st =
     upload_media_for_trip c trip_id media_list env (snd (upload_photo c trip_id m env st))"

section \<open>The run over the activity files\<close>

text \<open>\<open>load_uploaded_set\<close>: the stripped non-empty lines of the uploaded log, the empty set
  when the file does not exist.\<close>

definition load_uploaded_set :: "string list option \<Rightarrow> string set" where
  "load_uploaded_set log_lines =
     (case log_lines of
        None \<Rightarrow> {}
      | Some lines \<Rightarrow> set (filter (\<lambda>l. l \<noteq> []) (map strip lines)))"

definition append_uploaded :: "string \<Rightarrow> run_state \<Rightarrow> run_state" where
  "append_uploaded act_id st = st\<lparr>uploaded_log := uploaded_log st @ [act_id]\<rparr>"

text \<open>\<open>Path.suffix\<close> of a file name: from the last dot on, unless that dot is the first or
  the last character.\<close>

definition path_suffix :: "string \<Rightarrow> string" where
  "path_suffix nm =
     (let after = rev (takeWhile (\<lambda>ch. ch \<noteq> CHR ''.'') (rev nm))
      in if CHR ''.'' \<notin> set nm \<or> after = [] \<or> length after + 1 = length nm then []
         else CHR ''.'' # after)"

definition is_activity_file :: "string \<Rightarrow> bool" where
  "is_activity_file nm =
     (path_suffix nm \<in> {''.fit'', ''.gpx'', ''.tcx'', ''.gz''}
      \<or> list_ex (endswith nm) [''.fit.gz'', ''.gpx.gz'', ''.tcx.gz''])"

text \<open>\<open>discover_activity_files\<close>: the directory listing is given sorted, each entry with
  its \<open>is_file()\<close>; it is \<open>None\<close> when the directory does not exist.\<close>

definition discover_activity_files :: "(string \<times> bool) list option \<Rightarrow> string list" where
  "discover_activity_files listing =
     (case listing of
        None \<Rightarrow> []
      | Some entries \<Rightarrow> map fst (filter (\<lambda>(nm, is_file). is_file \<and> is_activity_file nm) entries))"

text \<open>The command line: \<open>--only\<close>, \<open>--force\<close>, \<open>--poll-interval\<close>, \<open>--poll-timeout\<close>; the
  dry-run flag is the client's.\<close>

record args =
  only :: "string option"
  force :: bool
  poll_interval :: pyfloat
  poll_timeout :: pyfloat

text \<open>\<open>target_ids\<close>: \<open>None\<close> unless \<open>--only\<close> is given and not empty.\<close>

definition parse_only :: "string option \<Rightarrow> string set option" where
  "parse_only v =
     (case v of
        None \<Rightarrow> None
      | Some s \<Rightarrow>
          if s = [] then None
          else Some (set (filter (\<lambda>x. x \<noteq> []) (map strip (split_on CHR '','' s)))))"

text \<open>\<open>target_ids and act_id not in target_ids\<close>\<close>

definition excluded :: "string set option \<Rightarrow> string \<Rightarrow> bool" where
  "excluded target_ids act_id =
     (case target_ids of
        None \<Rightarrow> False
      | Some ids \<Rightarrow> ids \<noteq> {} \<and> act_id \<notin> ids)"

text \<open>
  The body of the loop of \<open>main\<close> for one file. \<open>None\<close> only when the poll needs more rounds
  than the environment describes.
\<close>

definition process_file ::
  "RWGPSClient \<Rightarrow> args \<Rightarrow> meta_index \<Rightarrow> string set option \<Rightarrow> string set
     \<Rightarrow> file_env \<Rightarrow> string \<Rightarrow> run_state \<Rightarrow> run_state option" where
  "process_file c a activity_meta target_ids already_uploaded env file_name st =
     (let act_id = infer_activity_id_from_filename file_name
      in if excluded target_ids act_id then Some st
         else if \<not> force a \<and> act_id \<in> already_uploaded then
           Some (st\<lparr>skipped := skipped st + 1\<rparr>)
         else
           (case activity_meta act_id of
              None \<Rightarrow> Some (st\<lparr>skipped := skipped st + 1\<rparr>)
            | Some meta \<Rightarrow>
                (case upload_trip_from_file c file_name (poll_interval a) (poll_timeout a) env st of
                   None \<Rightarrow> None
                 | Some (Raised e, st1) \<Rightarrow> Some (st1\<lparr>errors := errors st1 + 1\<rparr>)
                 | Some (Returned trip, st1) \<Rightarrow>
                     if trip = Some DUPLICATE_TRIP then
                       (let st2 = (if \<not> dry_run c then append_uploaded act_id st1 else st1)
                        in Some (st2\<lparr>skipped := skipped st2 + 1\<rparr>))
                     else
                       (case trip of
                          Some trip_id \<Rightarrow>
                            (let st2 = upload_media_for_trip c trip_id
                                         (filter (media_exists env) (media_paths meta)) env st1;
                                 st3 = (if \<not> dry_run c \<and> trip_id \<noteq> - 1
                                        then append_uploaded act_id st2 else st2)
                             in Some (st3\<lparr>successes := successes st3 + 1\<rparr>))
                        | None \<Rightarrow> Some (st1\<lparr>errors := errors st1 + 1\<rparr>)))))"

fun process_files ::
  "RWGPSClient \<Rightarrow> args \<Rightarrow> meta_index \<Rightarrow> string set option \<Rightarrow> string set
     \<Rightarrow> (string \<Rightarrow> file_env) \<Rightarrow> string list \<Rightarrow> run_state \<Rightarrow> run_state option" where
  "process_files c a activity_meta target_ids already_uploaded envs [] st = Some st"
| "process_files c a activity_meta target_ids already_uploaded envs (f # files) st =
     (case process_file c a activity_meta target_ids already_uploaded (envs f) f st of
        None \<Rightarrow> None
      | Some st1 \<Rightarrow> process_files c a activity_meta target_ids already_uploaded envs files st1)"

text \<open>The state at the start of the run: the token of the environment variable, nothing
  sent, the uploaded log as found on disk, all counts zero.\<close>

definition initial_state :: "string option \<Rightarrow> string list option \<Rightarrow> run_state" where
  "initial_state token log_lines =
     \<lparr>auth_token = (if truthy token then token else None),
      requests = [],
      uploaded_log = (case log_lines of None \<Rightarrow> [] | Some lines \<Rightarrow> lines),
      successes = 0, skipped = 0, errors = 0\<rparr>"

text \<open>
  \<open>main\<close>: the exit status with the final state, or the exception that ends the program.
\<close>

definition main ::
  "RWGPSClient \<Rightarrow> args \<Rightarrow> string option \<Rightarrow> csv_row list option \<Rightarrow> string
     \<Rightarrow> string list option \<Rightarrow> (string \<times> bool) list option \<Rightarrow> (string \<Rightarrow> file_env)
     \<Rightarrow> (error + int \<times> run_state) option" where
  "main c a token csv project_root log_lines listing envs =
     (let st0 = initial_state token log_lines
      in if api_key c = [] then Some (Inr (2, st0))
         else
           (case load_activity_metadata csv project_root of
              Inl e \<Rightarrow> Some (Inl e)
            | Inr activity_meta \<Rightarrow>
                (let target_ids = parse_only (only a);
                     already_uploaded = load_uploaded_set log_lines;
                     files = discover_activity_files listing
                 in if files = [] then Some (Inr (0, st0))
                    else
                      (case process_files c a activity_meta target_ids already_uploaded
                              envs files st0 of
                         None \<Rightarrow> None
                       | Some st \<Rightarrow> Some (Inr (if errors st = 0 then 0 else 1, st))))))"

text \<open>A row as an export writes it, for the examples: identifier, name and file name given,
  no description and no media.\<close>

definition mk_row :: "string \<Rightarrow> string \<Rightarrow> string \<Rightarrow> csv_row" where
  "mk_row ident nm fname =
     \<lparr>col_activity_id = Some ident, col_activity_name = Some nm,
      col_activity_description = None, col_media = None, col_filename = Some fname\<rparr>"

section \<open>Notions used to state the properties of a run\<close>

text \<open>What a method leaves alone: the uploaded log and the three counts.\<close>

definition same_books :: "run_state \<Rightarrow> run_state \<Rightarrow> bool" where
  "same_books st st' =
     (uploaded_log st' = uploaded_log st \<and> successes st' = successes st
      \<and> skipped st' = skipped st \<and> errors st' = errors st)"

definition example_client :: RWGPSClient where
  "example_client = \<lparr>api_key = ''key'', email = Some ''rider@example.org'',
                      password = Some ''secret'', dry_run = False\<rparr>"

definition example_args :: args where
  "example_args = \<lparr>only = None, force = False, poll_interval = Finite 2,
                    poll_timeout = Finite 300\<rparr>"

definition trip_task :: "string \<Rightarrow> associated_object list \<Rightarrow> task" where
  "trip_task rc objs =
     \<lparr>task_status = None, response_code = Some rc, message = None,
      associated_objects = objs\<rparr>"

definition trip_object :: "int \<Rightarrow> associated_object" where
  "trip_object trip_id = \<lparr>obj_type = Some ''trip'', obj_trip_id = Some trip_id\<rparr>"

definition example_env :: file_env where
  "example_env =
     \<lparr>auth_reply = AuthHttp 200 (AuthBody (Some ''token'')),
      file_readable = True,
      post_reply = PostHttp 200 (PostDict (Some 7)),
      poll_started = 0,
      poll_ticks = [(1, StatusHttp 200 (StatusTasks [trip_task ''success'' [trip_object 99]]))],
      media_exists = (\<lambda>p. False),
      photo_readable = (\<lambda>p. True),
      photo_reply = (\<lambda>p. PhotoHttp 200)\<rparr>"

text \<open>An entry of the associated objects that is a trip with an identifier.\<close>

definition names_trip :: "associated_object \<Rightarrow> bool" where
  "names_trip obj =
     (obj_type obj = Some ''trip''
      \<and> (case obj_trip_id obj of None \<Rightarrow> False | Some trip_id \<Rightarrow> trip_id \<noteq> 0))"

text \<open>A status answer after which the task is still being processed.\<close>

definition still_processing :: "status_reply \<Rightarrow> bool" where
  "still_processing reply =
     (case reply of
        StatusRaised \<Rightarrow> True
      | StatusHttp code body \<Rightarrow>
          code \<noteq> 200
          \<or> (case body of
                StatusNotJson \<Rightarrow> True
              | StatusBadShape \<Rightarrow> False
              | StatusTasks [] \<Rightarrow> True
              | StatusTasks (tsk # _) \<Rightarrow>
                  (if response_code tsk = Some ''success''
                   then list_all (\<lambda>obj. \<not> names_trip obj) (associated_objects tsk)
                   else response_code tsk \<noteq> Some ''duplicate''
                        \<and> response_code tsk \<noteq> Some ''error''
                        \<and> response_code tsk \<noteq> Some ''failed'')))"

definition polled :: "nat \<Rightarrow> int \<Rightarrow> run_state \<Rightarrow> run_state" where
  "polled n task_id st = st\<lparr>requests := requests st @ replicate n (GetTaskStatus task_id)\<rparr>"

text \<open>A request of the media-upload path.\<close>

definition is_media_request :: "request \<Rightarrow> bool" where
  "is_media_request r = (case r of PostPhoto _ _ \<Rightarrow> True | _ \<Rightarrow> False)"

text \<open>An answer of the authentication endpoint that refuses the credentials: a status
  other than 200, or a body whose token field is missing or empty.\<close>

definition auth_refused :: "auth_reply \<Rightarrow> bool" where
  "auth_refused reply =
     (case reply of
        AuthRaised \<Rightarrow> False
      | AuthHttp code body \<Rightarrow>
          code \<noteq> 200
          \<or> (case body of AuthBodyUnreadable \<Rightarrow> False | AuthBody tok \<Rightarrow> \<not> truthy tok))"

section \<open>Facts about suffixes\<close>

lemma endswith_append: "endswith (p @ suf) suf"
  by (simp add: endswith_def)

lemma endswith_iff: "endswith s suf \<longleftrightarrow> (\<exists>p. s = p @ suf)"
proof
  assume "endswith s suf"
  then have "s = take (length s - length suf) s @ suf"
    by (metis append_take_drop_id endswith_def)
  then show "\<exists>p. s = p @ suf" ..
next
  assume "\<exists>p. s = p @ suf"
  then show "endswith s suf"
    by (auto simp: endswith_append)
qed

lemma drop_last_append: "drop_last (length suf) (p @ suf) = p"
  by (simp add: drop_last_def)

lemma endswith_same_length:
  assumes "endswith s a" and "endswith s b" and "length a = length b"
  shows "a = b"
  using assms by (simp add: endswith_def)

lemma endswith_last:
  assumes "endswith s suf" and "suf \<noteq> []"
  shows "last s = last suf"
proof -
  from assms(1) obtain p where "s = p @ suf"
    by (auto simp: endswith_iff)
  with assms(2) show ?thesis by simp
qed

lemma strip_first_ext_None:
  "strip_first_ext base exts = None \<longleftrightarrow> (\<forall>e \<in> set exts. \<not> endswith base e)"
  by (induction exts) auto

lemma strip_first_ext_unique:
  assumes "ext \<in> set exts" and "endswith s ext"
    and "\<And>a. a \<in> set exts \<Longrightarrow> a \<noteq> ext \<Longrightarrow> \<not> endswith s a"
  shows "strip_first_ext s exts = Some (drop_last (length ext) s)"
  using assms by (induction exts) auto

lemma double_not_single:
  assumes "d \<in> set double_exts" and "e \<in> set single_exts"
  shows "\<not> (endswith s d \<and> endswith s e)"
proof
  assume h: "endswith s d \<and> endswith s e"
  from assms(1) have d: "d \<noteq> [] \<and> last d = CHR ''z''"
    by (auto simp: double_exts_def)
  from assms(2) have e: "e \<noteq> [] \<and> last e \<noteq> CHR ''z''"
    by (auto simp: single_exts_def)
  from h d have "last s = CHR ''z''"
    by (metis endswith_last)
  moreover from h e have "last s \<noteq> CHR ''z''"
    by (metis endswith_last)
  ultimately show False by simp
qed

lemma infer_double:
  assumes "ext \<in> set double_exts"
  shows "infer_activity_id_from_filename (stem @ ext) = stem"
proof -
  have len: "\<And>a b. a \<in> set double_exts \<Longrightarrow> b \<in> set double_exts \<Longrightarrow> length a = length b"
    by (auto simp: double_exts_def)
  have other: "\<And>a. a \<in> set double_exts \<Longrightarrow> a \<noteq> ext \<Longrightarrow> \<not> endswith (stem @ ext) a"
    using assms endswith_append endswith_same_length len by blast
  have "strip_first_ext (stem @ ext) double_exts = Some (drop_last (length ext) (stem @ ext))"
    using assms other by (intro strip_first_ext_unique) (auto simp: endswith_append)
  then have "strip_first_ext (stem @ ext) double_exts = Some stem"
    by (simp only: drop_last_append)
  then show ?thesis
    by (simp add: infer_activity_id_from_filename_def)
qed

lemma infer_single:
  assumes "ext \<in> set single_exts"
  shows "infer_activity_id_from_filename (stem @ ext) = stem"
proof -
  have len: "\<And>a b. a \<in> set single_exts \<Longrightarrow> b \<in> set single_exts \<Longrightarrow> length a = length b"
    by (auto simp: single_exts_def)
  have other: "\<And>a. a \<in> set single_exts \<Longrightarrow> a \<noteq> ext \<Longrightarrow> \<not> endswith (stem @ ext) a"
    using assms endswith_append endswith_same_length len by blast
  have nodouble: "strip_first_ext (stem @ ext) double_exts = None"
    unfolding strip_first_ext_None
    using assms double_not_single endswith_append by blast
  have "strip_first_ext (stem @ ext) single_exts = Some (drop_last (length ext) (stem @ ext))"
    using assms other by (intro strip_first_ext_unique) (auto simp: endswith_append)
  then have "strip_first_ext (stem @ ext) single_exts = Some stem"
    by (simp only: drop_last_append)
  with nodouble show ?thesis
    by (simp add: infer_activity_id_from_filename_def)
qed

lemma infer_other:
  assumes "\<forall>e \<in> set (double_exts @ single_exts). \<not> endswith f e"
  shows "infer_activity_id_from_filename f = f"
proof -
  have "strip_first_ext f double_exts = None" and "strip_first_ext f single_exts = None"
    using assms by (auto simp: strip_first_ext_None)
  then show ?thesis
    by (simp add: infer_activity_id_from_filename_def)
qed

section \<open>Claims about the identifier inferred from a file name\<close>

text \<open>
  C5. For every file name \<open>f\<close>: when \<open>f\<close> ends in one of the double extensions
  \<open>.fit.gz\<close>, \<open>.gpx.gz\<close>, \<open>.tcx.gz\<close>, the inferred identifier is \<open>f\<close> without exactly that
  suffix (so \<open>x.fit.gz\<close> gives \<open>x\<close>, never \<open>x.fit\<close>); otherwise, when \<open>f\<close> ends in one of
  \<open>.fit\<close>, \<open>.gpx\<close>, \<open>.tcx\<close>, it is \<open>f\<close> without exactly that suffix; otherwise it is \<open>f\<close>
  itself.
\<close>

theorem infer_activity_id_strips_known_extension:
  "(\<forall>ext \<in> set double_exts. endswith f ext \<longrightarrow>
      infer_activity_id_from_filename f @ ext = f)
   \<and> ((\<forall>d \<in> set double_exts. \<not> endswith f d) \<longrightarrow>
        (\<forall>ext \<in> set single_exts. endswith f ext \<longrightarrow>
           infer_activity_id_from_filename f @ ext = f))
   \<and> ((\<forall>e \<in> set (double_exts @ single_exts). \<not> endswith f e) \<longrightarrow>
        infer_activity_id_from_filename f = f)"
proof (intro conjI ballI impI)
  fix ext assume "ext \<in> set double_exts" and "endswith f ext"
  then show "infer_activity_id_from_filename f @ ext = f"
    by (auto simp: endswith_iff infer_double)
next
  fix ext assume "ext \<in> set single_exts" and "endswith f ext"
  then show "infer_activity_id_from_filename f @ ext = f"
    by (auto simp: endswith_iff infer_single)
next
  assume "\<forall>e \<in> set (double_exts @ single_exts). \<not> endswith f e"
  then show "infer_activity_id_from_filename f = f"
    by (rule infer_other)
qed

theorem infer_activity_id_strips_known_extension_witness:
  "endswith ''42.fit.gz'' ''.fit.gz''
   \<and> infer_activity_id_from_filename ''42.fit.gz'' @ ''.fit.gz'' = ''42.fit.gz''
   \<and> infer_activity_id_from_filename ''42.fit.gz'' = ''42''
   \<and> endswith ''7.gpx'' ''.gpx''
   \<and> infer_activity_id_from_filename ''7.gpx'' @ ''.gpx'' = ''7.gpx''
   \<and> infer_activity_id_from_filename ''ride.gz'' = ''ride.gz''"
proof -
  have a: "endswith ''42.fit.gz'' ''.fit.gz''" and b: "endswith ''7.gpx'' ''.gpx''"
    by (simp_all add: endswith_def)
  have nd: "\<forall>d \<in> set double_exts. \<not> endswith ''7.gpx'' d"
    by (simp add: double_exts_def endswith_def)
  have no: "\<forall>e \<in> set (double_exts @ single_exts). \<not> endswith ''ride.gz'' e"
    by (simp add: double_exts_def single_exts_def endswith_def)
  have m1: "''.fit.gz'' \<in> set double_exts" by (simp add: double_exts_def)
  have m2: "''.gpx'' \<in> set single_exts" by (simp add: single_exts_def)
  note t1 = infer_activity_id_strips_known_extension [of "''42.fit.gz''"]
  note t2 = infer_activity_id_strips_known_extension [of "''7.gpx''"]
  note t3 = infer_activity_id_strips_known_extension [of "''ride.gz''"]
  have c1: "infer_activity_id_from_filename ''42.fit.gz'' @ ''.fit.gz'' = ''42.fit.gz''"
    using t1 a m1 by blast
  then have c1': "infer_activity_id_from_filename ''42.fit.gz'' = ''42''"
    by simp
  have c2: "infer_activity_id_from_filename ''7.gpx'' @ ''.gpx'' = ''7.gpx''"
    using t2 b m2 nd by blast
  have c3: "infer_activity_id_from_filename ''ride.gz'' = ''ride.gz''"
    using t3 no by blast
  from a b c1 c1' c2 c3 show ?thesis by blast
qed

section \<open>Facts about the metadata index\<close>

text \<open>
  Since every insertion is a \<open>setdefault\<close>, the index maps a key to the record of the first
  row, in the order of the ledger, that asks for this key.
\<close>

lemma index_by_filename_eq:
  "index_by_filename m base meta exts =
     (case strip_first_ext base exts of
        None \<Rightarrow> m
      | Some file_id \<Rightarrow> if file_id \<noteq> [] then setdefault m file_id meta else m)"
  by (induction exts) (simp_all add: Let_def)

lemma setdefault_apply:
  "setdefault m k v k' = (case m k' of Some x \<Rightarrow> Some x | None \<Rightarrow> if k' = k then Some v else None)"
  by (auto simp: setdefault_def split: option.splits)

lemma load_row_apply:
  "load_row b m r k =
     (case m k of
        Some v \<Rightarrow> Some v
      | None \<Rightarrow> if k \<in> set (row_keys r) then Some (row_meta b r) else None)"
  by (auto simp: load_row_def row_keys_def derived_stem_def row_meta_def Let_def
        index_by_filename_eq setdefault_apply split: option.splits)

lemma load_rows_apply:
  "load_rows b m rows k =
     (case m k of
        Some v \<Rightarrow> Some v
      | None \<Rightarrow> map_option (row_meta b) (find (\<lambda>r. k \<in> set (row_keys r)) rows))"
  by (induction rows arbitrary: m) (auto simp: load_row_apply split: option.splits)

lemma empty_not_row_key: "[] \<notin> set (row_keys r)"
  by (auto simp: row_keys_def Let_def split: option.splits)

lemma find_first_index:
  assumes "i < length xs" and "P (xs ! i)" and "\<forall>j<i. \<not> P (xs ! j)"
  shows "find P xs = Some (xs ! i)"
  using assms by (auto simp: find_Some_iff)

lemma find_exists:
  assumes "i < length xs" and "P (xs ! i)"
  shows "find P xs \<noteq> None"
proof
  assume "find P xs = None"
  then have "\<forall>x \<in> set xs. \<not> P x" by (simp add: find_None_iff)
  moreover have "xs ! i \<in> set xs" using assms(1) by (rule nth_mem)
  ultimately show False using assms(2) by blast
qed

lemma own_key: "cell (col_activity_id r) \<noteq> [] \<Longrightarrow> cell (col_activity_id r) \<in> set (row_keys r)"
  by (simp add: row_keys_def Let_def)

lemma stem_key:
  "cell (col_activity_id r) \<noteq> [] \<Longrightarrow> derived_stem r = Some k \<Longrightarrow> k \<noteq> [] \<Longrightarrow> k \<in> set (row_keys r)"
  by (simp add: row_keys_def Let_def)

lemma index_apply:
  assumes "load_activity_metadata (Some rows) b = Inr idx"
  shows "idx k = map_option (row_meta b) (find (\<lambda>r. k \<in> set (row_keys r)) rows)"
  using assms by (auto simp: load_activity_metadata_def load_rows_apply)

lemma mk_row_keys:
  "row_keys (mk_row ''100'' ''Morning'' ''activities/200.fit.gz'') = [''100'', ''200'']"
  "row_keys (mk_row ''200'' ''Evening'' ''activities/300.fit.gz'') = [''200'', ''300'']"
  "row_keys (mk_row ''400'' ''Night'' ''activities/300.gpx'') = [''400'', ''300'']"
  by (simp_all add: row_keys_def mk_row_def derived_stem_def cell_def strip_def isspace_def
        path_name_def metadata_exts_def endswith_def drop_last_def)

lemma mk_row_meta:
  "row_meta b (mk_row i n f) = \<lparr>activity_id = strip i,
     name = (if strip n \<noteq> [] then strip n else ''Activity '' @ strip i),
     description = [], media_paths = []\<rparr>"
  by (simp add: row_meta_def build_meta_def mk_row_def cell_def Let_def strip_def)


lemma mk_row_id: "cell (col_activity_id (mk_row ''100'' n f)) = ''100''"
  "cell (col_activity_id (mk_row ''200'' n f)) = ''200''"
  "cell (col_activity_id (mk_row ''300'' n f)) = ''300''"
  "cell (col_activity_id (mk_row ''400'' n f)) = ''400''"
  by (simp_all add: mk_row_def cell_def strip_def isspace_def)

lemma mk_row_stem:
  "derived_stem (mk_row i n ''activities/300.fit.gz'') = Some ''300''"
  "derived_stem (mk_row i n ''activities/300.gpx'') = Some ''300''"
  by (simp_all add: mk_row_def derived_stem_def cell_def strip_def isspace_def
        path_name_def metadata_exts_def endswith_def drop_last_def)

lemma mk_row_keys2:
  "row_keys (mk_row ''300'' ''Ride'' ''activities/1.fit.gz'') = [''300'', ''1'']"
  by (simp_all add: row_keys_def mk_row_def derived_stem_def cell_def strip_def isspace_def
        path_name_def metadata_exts_def endswith_def drop_last_def)

section \<open>Claims about the metadata index\<close>

text \<open>
  C7, as the code has it. Indexing under the declared identifier is a \<open>setdefault\<close> too:
  for every row of the ledger with a non-empty declared identifier \<open>k\<close>, the index holds a
  record under \<open>k\<close>, namely the record of the first row of the ledger that asks for the
  key \<open>k\<close> (as its declared identifier or as its derived stem); it is the row's own record
  when no earlier row asks for \<open>k\<close>.
\<close>

theorem declared_identifier_first_writer_wins:
  assumes "load_activity_metadata (Some rows) b = Inr idx"
    and "i < length rows" and "cell (col_activity_id (rows ! i)) = k" and "k \<noteq> []"
  shows "idx k = map_option (row_meta b) (find (\<lambda>r. k \<in> set (row_keys r)) rows)
         \<and> idx k \<noteq> None
         \<and> ((\<forall>j<i. k \<notin> set (row_keys (rows ! j))) \<longrightarrow> idx k = Some (row_meta b (rows ! i)))"
proof -
  have own: "k \<in> set (row_keys (rows ! i))"
    using assms(3,4) own_key by blast
  have a: "idx k = map_option (row_meta b) (find (\<lambda>r. k \<in> set (row_keys r)) rows)"
    using assms(1) by (rule index_apply)
  have "find (\<lambda>r. k \<in> set (row_keys r)) rows \<noteq> None"
    using assms(2) own by (rule find_exists)
  with a have b: "idx k \<noteq> None" by simp
  have c: "idx k = Some (row_meta b (rows ! i))" if "\<forall>j<i. k \<notin> set (row_keys (rows ! j))"
    using a find_first_index [OF assms(2) own that] by simp
  from a b c show ?thesis by blast
qed

theorem declared_identifier_first_writer_wins_witness:
  "load_rows ''.'' Map.empty
     [mk_row ''100'' ''Morning'' ''activities/200.fit.gz'',
      mk_row ''400'' ''Night'' ''activities/300.gpx''] ''400''
   = Some (row_meta ''.'' (mk_row ''400'' ''Night'' ''activities/300.gpx''))"
proof -
  let ?rows = "[mk_row ''100'' ''Morning'' ''activities/200.fit.gz'',
                mk_row ''400'' ''Night'' ''activities/300.gpx'']"
  have l: "load_activity_metadata (Some ?rows) ''.'' = Inr (load_rows ''.'' Map.empty ?rows)"
    by (simp add: load_activity_metadata_def)
  have i: "(1::nat) < length ?rows" by simp
  have k: "cell (col_activity_id (?rows ! 1)) = ''400''" by (simp add: mk_row_id)
  have ne: "''400'' \<noteq> []" by simp
  have free: "\<forall>j<(1::nat). ''400'' \<notin> set (row_keys (?rows ! j))"
    by (simp add: mk_row_keys)
  note t = declared_identifier_first_writer_wins [OF l i k ne]
  from t [THEN conjunct2, THEN conjunct2, THEN mp, OF free]
  show ?thesis by (simp del: load_rows.simps)
qed

text \<open>
  C7 as stated fails: the first row derives the stem \<open>200\<close> from its file name, so the
  second row, whose declared identifier is \<open>200\<close>, is not looked up by its own identifier.
\<close>

theorem declared_identifier_shadowed_by_earlier_stem:
  "load_activity_metadata
     (Some [mk_row ''100'' ''Morning'' ''activities/200.fit.gz'',
            mk_row ''200'' ''Evening'' ''activities/300.fit.gz'']) ''.''
     = Inr (load_rows ''.'' Map.empty
              [mk_row ''100'' ''Morning'' ''activities/200.fit.gz'',
               mk_row ''200'' ''Evening'' ''activities/300.fit.gz''])
   \<and> cell (col_activity_id (mk_row ''200'' ''Evening'' ''activities/300.fit.gz'')) = ''200''
   \<and> load_rows ''.'' Map.empty
        [mk_row ''100'' ''Morning'' ''activities/200.fit.gz'',
         mk_row ''200'' ''Evening'' ''activities/300.fit.gz''] ''200''
       = Some (row_meta ''.'' (mk_row ''100'' ''Morning'' ''activities/200.fit.gz''))
   \<and> load_rows ''.'' Map.empty
        [mk_row ''100'' ''Morning'' ''activities/200.fit.gz'',
         mk_row ''200'' ''Evening'' ''activities/300.fit.gz''] ''200''
       \<noteq> Some (row_meta ''.'' (mk_row ''200'' ''Evening'' ''activities/300.fit.gz''))"
  by (simp add: load_activity_metadata_def load_rows_apply mk_row_keys mk_row_id mk_row_meta
        strip_def isspace_def del: load_rows.simps)

text \<open>
  C6, as the code has it. The stem of a row is its file name without the first matching
  extension of \<open>.fit.gz\<close>, \<open>.gpx.gz\<close>, \<open>.tcx.gz\<close>, \<open>.fit\<close>, \<open>.gpx\<close>, \<open>.tcx\<close>, and processing
  a row changes no key that is already present. When two rows derive the same stem \<open>k\<close>,
  lookup of \<open>k\<close> returns the record of the first row of the ledger that asks for the key
  \<open>k\<close>; that is the first of the two rows when no row before it asks for \<open>k\<close>.
\<close>

theorem derived_stem_first_writer_wins:
  assumes "load_activity_metadata (Some rows) b = Inr idx"
    and "i < j" and "j < length rows"
    and "cell (col_activity_id (rows ! i)) \<noteq> []" and "cell (col_activity_id (rows ! j)) \<noteq> []"
    and "derived_stem (rows ! i) = Some k" and "derived_stem (rows ! j) = Some k" and "k \<noteq> []"
  shows "(\<forall>m key. load_row b m (rows ! j) key =
            (case m key of
               Some v \<Rightarrow> Some v
             | None \<Rightarrow> if key \<in> set (row_keys (rows ! j)) then Some (row_meta b (rows ! j)) else None))
         \<and> idx k = map_option (row_meta b) (find (\<lambda>r. k \<in> set (row_keys r)) rows)
         \<and> ((\<forall>l<i. k \<notin> set (row_keys (rows ! l))) \<longrightarrow> idx k = Some (row_meta b (rows ! i)))"
proof -
  have i: "i < length rows" using assms(2,3) by simp
  have own: "k \<in> set (row_keys (rows ! i))"
    using assms(4,6,8) by (rule stem_key)
  have a: "idx k = map_option (row_meta b) (find (\<lambda>r. k \<in> set (row_keys r)) rows)"
    using assms(1) by (rule index_apply)
  have c: "idx k = Some (row_meta b (rows ! i))" if "\<forall>l<i. k \<notin> set (row_keys (rows ! l))"
    using a find_first_index [OF i own that] by simp
  from a c show ?thesis by (simp add: load_row_apply)
qed

theorem derived_stem_first_writer_wins_witness:
  "load_rows ''.'' Map.empty
     [mk_row ''200'' ''Evening'' ''activities/300.fit.gz'',
      mk_row ''400'' ''Night'' ''activities/300.gpx''] ''300''
   = Some (row_meta ''.'' (mk_row ''200'' ''Evening'' ''activities/300.fit.gz''))"
proof -
  let ?rows = "[mk_row ''200'' ''Evening'' ''activities/300.fit.gz'',
                mk_row ''400'' ''Night'' ''activities/300.gpx'']"
  have l: "load_activity_metadata (Some ?rows) ''.'' = Inr (load_rows ''.'' Map.empty ?rows)"
    by (simp add: load_activity_metadata_def)
  have ij: "(0::nat) < 1" by simp
  have j: "(1::nat) < length ?rows" by simp
  have a: "cell (col_activity_id (?rows ! 0)) \<noteq> []" by (simp add: mk_row_id)
  have b: "cell (col_activity_id (?rows ! 1)) \<noteq> []" by (simp add: mk_row_id)
  have c: "derived_stem (?rows ! 0) = Some ''300''" by (simp add: mk_row_stem)
  have d: "derived_stem (?rows ! 1) = Some ''300''" by (simp add: mk_row_stem)
  have ne: "''300'' \<noteq> []" by simp
  have free: "\<forall>l<(0::nat). ''300'' \<notin> set (row_keys (?rows ! l))" by simp
  note t = derived_stem_first_writer_wins [OF l ij j a b c d ne]
  from t [THEN conjunct2, THEN conjunct2, THEN mp, OF free]
  show ?thesis by (simp del: load_rows.simps)
qed

text \<open>
  C6 as stated fails for a ledger in which a row before the two declares the stem as its
  identifier: lookup of the stem returns that earlier row's record.
\<close>

theorem derived_stem_shadowed_by_earlier_identifier:
  "derived_stem (mk_row ''200'' ''Evening'' ''activities/300.fit.gz'') = Some ''300''
   \<and> derived_stem (mk_row ''400'' ''Night'' ''activities/300.gpx'') = Some ''300''
   \<and> load_rows ''.'' Map.empty
        [mk_row ''300'' ''Ride'' ''activities/1.fit.gz'',
         mk_row ''200'' ''Evening'' ''activities/300.fit.gz'',
         mk_row ''400'' ''Night'' ''activities/300.gpx''] ''300''
       = Some (row_meta ''.'' (mk_row ''300'' ''Ride'' ''activities/1.fit.gz''))
   \<and> load_rows ''.'' Map.empty
        [mk_row ''300'' ''Ride'' ''activities/1.fit.gz'',
         mk_row ''200'' ''Evening'' ''activities/300.fit.gz'',
         mk_row ''400'' ''Night'' ''activities/300.gpx''] ''300''
       \<noteq> Some (row_meta ''.'' (mk_row ''200'' ''Evening'' ''activities/300.fit.gz''))"
  by (simp add: load_rows_apply mk_row_keys mk_row_keys2 mk_row_stem mk_row_meta
        strip_def isspace_def del: load_rows.simps)

section \<open>Facts about the client and the run\<close>

lemma send_frame [simp]:
  "uploaded_log (send r st) = uploaded_log st"
  "successes (send r st) = successes st"
  "skipped (send r st) = skipped st"
  "errors (send r st) = errors st"
  "auth_token (send r st) = auth_token st"
  "requests (send r st) = requests st @ [r]"
  by (simp_all add: send_def)

lemma append_uploaded_frame [simp]:
  "uploaded_log (append_uploaded k st) = uploaded_log st @ [k]"
  "successes (append_uploaded k st) = successes st"
  "skipped (append_uploaded k st) = skipped st"
  "errors (append_uploaded k st) = errors st"
  "auth_token (append_uploaded k st) = auth_token st"
  "requests (append_uploaded k st) = requests st"
  by (simp_all add: append_uploaded_def)

lemma same_books_refl [simp]: "same_books st st"
  by (simp add: same_books_def)

lemma same_books_trans: "same_books a b \<Longrightarrow> same_books b c \<Longrightarrow> same_books a c"
  by (simp add: same_books_def)

lemma ensure_auth_books: "same_books st (snd (ensure_auth c env st))"
  by (simp add: ensure_auth_def same_books_def Let_def split: auth_reply.splits auth_body.splits)

lemma ensure_auth_dry:
  "dry_run c \<Longrightarrow> requests (snd (ensure_auth c env st)) = requests st"
  by (simp add: ensure_auth_def)

lemma upload_photo_books: "same_books st (snd (upload_photo c t p env st))"
proof -
  have "same_books st (snd (ensure_auth c env st))" by (rule ensure_auth_books)
  then show ?thesis
    by (cases "ensure_auth c env st")
      (auto simp: upload_photo_def same_books_def Let_def
        split: outcome.splits photo_reply.splits)
qed

lemma upload_photo_dry:
  "dry_run c \<Longrightarrow> requests (snd (upload_photo c t p env st)) = requests st"
  using ensure_auth_dry [of c env st]
  by (cases "ensure_auth c env st") (auto simp: upload_photo_def split: outcome.splits)

lemma upload_media_books: "same_books st (upload_media_for_trip c t ms env st)"
proof (induction ms arbitrary: st)
  case Nil
  show ?case by simp
next
  case (Cons m ms)
  show ?case
    using upload_photo_books [of st c t m env] Cons.IH [of "snd (upload_photo c t m env st)"]
    by (simp add: same_books_trans)
qed

lemma upload_media_dry:
  "dry_run c \<Longrightarrow> requests (upload_media_for_trip c t ms env st) = requests st"
  by (induction ms arbitrary: st) (simp_all add: upload_photo_dry)

lemma upload_trip_dry:
  assumes "dry_run c"
  shows "\<exists>r st1. upload_trip_from_file c f ivl tmo env st = Some (r, st1)
           \<and> requests st1 = requests st \<and> same_books st st1
           \<and> (r = Returned (Some (- 1)) \<or> (\<exists>e. r = Raised e))"
  using assms ensure_auth_dry [of c env st] ensure_auth_books [of st c env]
  by (cases "ensure_auth c env st") (auto simp: upload_trip_from_file_def split: outcome.splits)

lemma process_file_dry:
  assumes "dry_run c"
  shows "\<exists>st1. process_file c a idx tids already env f st = Some st1
           \<and> requests st1 = requests st \<and> uploaded_log st1 = uploaded_log st"
proof -
  from upload_trip_dry [OF assms, of f "poll_interval a" "poll_timeout a" env st]
  obtain r st1 where u: "upload_trip_from_file c f (poll_interval a) (poll_timeout a) env st = Some (r, st1)"
    and rq: "requests st1 = requests st" and bk: "same_books st st1"
    and r: "r = Returned (Some (- 1)) \<or> (\<exists>e. r = Raised e)"
    by blast
  from r show ?thesis
  proof
    assume "r = Returned (Some (- 1))"
    with u rq bk assms upload_media_dry [OF assms]
      upload_media_books
    show ?thesis
      by (auto simp: process_file_def Let_def DUPLICATE_TRIP_def same_books_def split: option.splits)
  next
    assume "\<exists>e. r = Raised e"
    with u rq bk show ?thesis
      by (auto simp: process_file_def Let_def same_books_def split: option.splits)
  qed
qed

lemma process_files_dry:
  assumes "dry_run c"
  shows "\<exists>st1. process_files c a idx tids already envs fs st = Some st1
           \<and> requests st1 = requests st \<and> uploaded_log st1 = uploaded_log st"
proof (induction fs arbitrary: st)
  case Nil
  show ?case by simp
next
  case (Cons f fs)
  from process_file_dry [OF assms, of a idx tids already "envs f" f st]
  obtain st1 where p: "process_file c a idx tids already (envs f) f st = Some st1"
    and q: "requests st1 = requests st" "uploaded_log st1 = uploaded_log st" by blast
  from Cons.IH [of st1] p q show ?case by auto
qed

text \<open>The values of the examples.\<close>

lemma infer_examples:
  "infer_activity_id_from_filename ''42.fit'' = ''42''"
  "infer_activity_id_from_filename ''43.fit'' = ''43''"
  "infer_activity_id_from_filename ''.fit.gz'' = []"
  using infer_single [of "''.fit''" "''42''"] infer_single [of "''.fit''" "''43''"]
    infer_double [of "''.fit.gz''" "[]"]
  by (simp_all add: single_exts_def double_exts_def)

lemma discover_examples:
  "discover_activity_files (Some [(''42.fit'', True)]) = [''42.fit'']"
  "discover_activity_files (Some [(''42.fit'', True), (''43.fit'', True)]) = [''42.fit'', ''43.fit'']"
  "discover_activity_files (Some [(''.fit.gz'', True)]) = [''.fit.gz'']"
  by (simp_all add: discover_activity_files_def is_activity_file_def path_suffix_def endswith_def)

lemma uploaded_example: "load_uploaded_set (Some [''42'']) = {''42''}"
  by (simp add: load_uploaded_set_def strip_def isspace_def)

lemma only_example: "parse_only (Some ''7'') = Some {''7''}"
  by (simp add: parse_only_def strip_def isspace_def)

lemma ride_keys:
  "row_keys (mk_row ''42'' ''Ride'' ''activities/42.fit.gz'') = [''42'', ''42'']"
  "row_keys (mk_row ''43'' ''Lap'' ''activities/43.fit.gz'') = [''43'', ''43'']"
  by (simp_all add: row_keys_def mk_row_def derived_stem_def cell_def strip_def isspace_def
        path_name_def metadata_exts_def endswith_def drop_last_def Let_def)

lemma ride_index:
  "load_rows b Map.empty [mk_row ''42'' ''Ride'' ''activities/42.fit.gz''] ''42''
   = Some \<lparr>activity_id = ''42'', name = ''Ride'', description = [], media_paths = []\<rparr>"
  by (simp add: load_rows_apply ride_keys mk_row_meta strip_def isspace_def del: load_rows.simps)

section \<open>Claims about the run\<close>

text \<open>
  C4. In dry-run mode, for every metadata ledger, uploaded log, directory listing and
  behaviour of the outside world, the program returns, and it has then sent no request at
  all (no trip submission, no media submission, no status poll, not even the
  authentication request) and the uploaded log is as it was found. (The only other way
  the program ends is the \<open>FileNotFoundError\<close> of a missing CSV file, raised before anything
  is done.)
\<close>

theorem dry_run_sends_nothing:
  assumes "dry_run c"
  shows "main c a token csv project_root log_lines listing envs = Some (Inl FileNotFoundError)
         \<or> (\<exists>code st. main c a token csv project_root log_lines listing envs = Some (Inr (code, st))
               \<and> requests st = []
               \<and> uploaded_log st = uploaded_log (initial_state token log_lines))"
proof (cases "api_key c = []")
  case True
  then show ?thesis by (simp add: main_def initial_state_def)
next
  case key: False
  show ?thesis
  proof (cases csv)
    case None
    with key show ?thesis by (simp add: main_def load_activity_metadata_def)
  next
    case (Some rows)
    let ?st0 = "initial_state token log_lines"
    let ?idx = "load_rows project_root Map.empty rows"
    from process_files_dry [OF assms, of a ?idx "parse_only (only a)" "load_uploaded_set log_lines"
        envs "discover_activity_files listing" ?st0]
    obtain st1 where
      p: "process_files c a ?idx (parse_only (only a)) (load_uploaded_set log_lines) envs
            (discover_activity_files listing) ?st0 = Some st1"
      and q: "requests st1 = requests ?st0" "uploaded_log st1 = uploaded_log ?st0" by blast
    have r0: "requests ?st0 = []" by (simp add: initial_state_def)
    from key Some p q r0 show ?thesis
      by (simp add: main_def load_activity_metadata_def Let_def)
  qed
qed

theorem dry_run_sends_nothing_witness:
  "dry_run (example_client\<lparr>dry_run := True\<rparr>)
   \<and> main (example_client\<lparr>dry_run := True\<rparr>) example_args None
        (Some [mk_row ''42'' ''Ride'' ''activities/42.fit.gz'']) ''.'' None
        (Some [(''42.fit'', True)]) (\<lambda>f. example_env)
      = Some (Inr (0, \<lparr>auth_token = Some ''DUMMY_TOKEN'', requests = [], uploaded_log = [],
                         successes = 1, skipped = 0, errors = 0\<rparr>))"
proof -
  let ?c = "example_client\<lparr>dry_run := True\<rparr>"
  have d: "dry_run ?c" by simp
  have ev: "main ?c example_args None
        (Some [mk_row ''42'' ''Ride'' ''activities/42.fit.gz'']) ''.'' None
        (Some [(''42.fit'', True)]) (\<lambda>f. example_env)
      = Some (Inr (0, \<lparr>auth_token = Some ''DUMMY_TOKEN'', requests = [], uploaded_log = [],
                         successes = 1, skipped = 0, errors = 0\<rparr>))"
    by (simp add: main_def example_client_def example_args_def initial_state_def truthy_def
        load_activity_metadata_def parse_only_def load_uploaded_set_def discover_examples
        process_file_def infer_examples excluded_def ride_index upload_trip_from_file_def
        ensure_auth_def example_env_def DUPLICATE_TRIP_def Let_def del: load_rows.simps)
  from dry_run_sends_nothing [OF d, of example_args None
        "Some [mk_row ''42'' ''Ride'' ''activities/42.fit.gz'']" "''.''" None
        "Some [(''42.fit'', True)]" "\<lambda>f. example_env"] d ev
  show ?thesis by simp
qed

lemma empty_not_uploaded: "[] \<notin> load_uploaded_set log_lines"
  by (auto simp: load_uploaded_set_def split: option.splits)

lemma empty_not_target: "parse_only v = Some ids \<Longrightarrow> [] \<notin> ids"
  by (auto simp: parse_only_def split: option.splits if_splits)

lemma excluded_empty:
  "excluded (parse_only v) [] \<longleftrightarrow> (\<exists>ids. parse_only v = Some ids \<and> ids \<noteq> {})"
  using empty_not_target by (auto simp: excluded_def split: option.splits)

lemma index_no_empty_key:
  assumes "load_activity_metadata csv b = Inr idx"
  shows "idx [] = None"
  using assms
  by (auto simp: load_activity_metadata_def load_rows_apply empty_not_row_key find_None_iff
      split: option.splits)

lemma infer_bare_extension:
  assumes "f \<in> set (double_exts @ single_exts)"
  shows "infer_activity_id_from_filename f = []"
  using assms infer_double [of f "[]"] infer_single [of f "[]"] by auto

text \<open>
  C1, as the code has it. For every file whose inferred identifier is in the uploaded
  ledger read at startup, without force-mode, the loop body sends no request, leaves the
  uploaded log and the success and error counts unchanged, and increments the skipped
  count by one exactly when the allow-list filter does not exclude the identifier; an
  excluded identifier is passed over without any count.
\<close>

theorem already_uploaded_is_skipped:
  assumes "\<not> force a"
    and "infer_activity_id_from_filename f \<in> load_uploaded_set log_lines"
  shows "\<exists>st1. process_file c a idx tids (load_uploaded_set log_lines) env f st = Some st1
           \<and> requests st1 = requests st
           \<and> uploaded_log st1 = uploaded_log st
           \<and> successes st1 = successes st \<and> errors st1 = errors st
           \<and> skipped st1 = (if excluded tids (infer_activity_id_from_filename f)
                             then skipped st else skipped st + 1)"
  using assms by (simp add: process_file_def Let_def)

theorem already_uploaded_is_skipped_witness:
  "\<not> force example_args
   \<and> infer_activity_id_from_filename ''42.fit'' \<in> load_uploaded_set (Some [''42''])
   \<and> (\<exists>st1. process_file example_client example_args Map.empty None
                (load_uploaded_set (Some [''42''])) example_env ''42.fit''
                (initial_state None (Some [''42''])) = Some st1
             \<and> requests st1 = [] \<and> uploaded_log st1 = [''42''] \<and> skipped st1 = 1)"
proof -
  have f: "\<not> force example_args" by (simp add: example_args_def)
  have m: "infer_activity_id_from_filename ''42.fit'' \<in> load_uploaded_set (Some [''42''])"
    by (simp add: infer_examples uploaded_example)
  from already_uploaded_is_skipped [OF f m, of example_client Map.empty None example_env
      "initial_state None (Some [''42''])"] f m
  show ?thesis by (auto simp: excluded_def initial_state_def)
qed

text \<open>
  C1 as stated fails when the allow-list filter excludes the identifier: the file is in
  the uploaded ledger and force-mode is off, yet the run ends with a skipped count of zero.
\<close>

theorem allow_list_passes_over_uploaded_file:
  "\<not> force (example_args\<lparr>only := Some ''7''\<rparr>)
   \<and> infer_activity_id_from_filename ''42.fit'' \<in> load_uploaded_set (Some [''42''])
   \<and> main example_client (example_args\<lparr>only := Some ''7''\<rparr>) None
        (Some [mk_row ''42'' ''Ride'' ''activities/42.fit.gz'']) ''.'' (Some [''42''])
        (Some [(''42.fit'', True)]) (\<lambda>f. example_env)
      = Some (Inr (0, \<lparr>auth_token = None, requests = [], uploaded_log = [''42''],
                         successes = 0, skipped = 0, errors = 0\<rparr>))"
  by (simp add: main_def example_client_def example_args_def initial_state_def truthy_def
        load_activity_metadata_def only_example uploaded_example discover_examples
        process_file_def infer_examples excluded_def Let_def del: load_rows.simps)

text \<open>
  C10, as the code has it. The built index never has the empty string as a key, and the
  empty string is never in the uploaded set. Hence for every file whose name is exactly a
  known extension, the inferred identifier is empty and the loop body sends no request and
  leaves the uploaded log unchanged; it counts the file as skipped (for missing metadata)
  exactly when no allow-list filter is active, and passes it over without any count when
  one is, since an active filter never contains the empty identifier.
\<close>

theorem bare_extension_file_has_no_metadata:
  assumes "load_activity_metadata csv b = Inr idx"
    and "f \<in> set (double_exts @ single_exts)"
  shows "idx [] = None
         \<and> infer_activity_id_from_filename f = []
         \<and> [] \<notin> load_uploaded_set log_lines
         \<and> (\<exists>st1. process_file c a idx (parse_only v) (load_uploaded_set log_lines) env f st
                     = Some st1
               \<and> requests st1 = requests st
               \<and> uploaded_log st1 = uploaded_log st
               \<and> successes st1 = successes st \<and> errors st1 = errors st
               \<and> skipped st1 = (if \<exists>ids. parse_only v = Some ids \<and> ids \<noteq> {}
                                 then skipped st else skipped st + 1))"
proof -
  have a: "idx [] = None" using assms(1) by (rule index_no_empty_key)
  have b: "infer_activity_id_from_filename f = []" using assms(2) by (rule infer_bare_extension)
  have c: "[] \<notin> load_uploaded_set log_lines" by (rule empty_not_uploaded)
  from a b c show ?thesis
    by (simp add: process_file_def Let_def excluded_empty)
qed

theorem bare_extension_file_has_no_metadata_witness:
  "''.fit.gz'' \<in> set (double_exts @ single_exts)
   \<and> is_activity_file ''.fit.gz''
   \<and> (\<exists>st1. process_file example_client example_args
                (load_rows ''.'' Map.empty [mk_row ''42'' ''Ride'' ''activities/42.fit.gz''])
                (parse_only None) (load_uploaded_set None) example_env ''.fit.gz''
                (initial_state None None) = Some st1
             \<and> requests st1 = [] \<and> uploaded_log st1 = [] \<and> skipped st1 = 1)"
proof -
  have l: "load_activity_metadata (Some [mk_row ''42'' ''Ride'' ''activities/42.fit.gz'']) ''.''
           = Inr (load_rows ''.'' Map.empty [mk_row ''42'' ''Ride'' ''activities/42.fit.gz''])"
    by (simp add: load_activity_metadata_def)
  have e: "''.fit.gz'' \<in> set (double_exts @ single_exts)"
    by (simp add: double_exts_def)
  have d: "is_activity_file ''.fit.gz''"
    by (simp add: is_activity_file_def path_suffix_def endswith_def)
  have n: "parse_only None = None" by (simp add: parse_only_def)
  note t = bare_extension_file_has_no_metadata [OF l e, of None example_client example_args
      None example_env "initial_state None None"]
  from t [THEN conjunct2, THEN conjunct2, THEN conjunct2] e d
  show ?thesis by (auto simp: n initial_state_def simp del: load_rows.simps)
qed

text \<open>
  C10 as stated fails when an allow-list filter is active: the file named \<open>.fit.gz\<close> is
  discovered and is not in the ledger, yet the run ends with a skipped count of zero.
\<close>

theorem allow_list_passes_over_bare_extension_file:
  "''.fit.gz'' \<in> set (double_exts @ single_exts)
   \<and> ''.fit.gz'' \<in> set (discover_activity_files (Some [(''.fit.gz'', True)]))
   \<and> infer_activity_id_from_filename ''.fit.gz'' \<notin> load_uploaded_set None
   \<and> main example_client (example_args\<lparr>only := Some ''7''\<rparr>) None
        (Some [mk_row ''42'' ''Ride'' ''activities/42.fit.gz'']) ''.'' None
        (Some [(''.fit.gz'', True)]) (\<lambda>f. example_env)
      = Some (Inr (0, \<lparr>auth_token = None, requests = [], uploaded_log = [],
                         successes = 0, skipped = 0, errors = 0\<rparr>))"
  by (simp add: main_def example_client_def example_args_def initial_state_def truthy_def
        load_activity_metadata_def only_example empty_not_uploaded discover_examples
        process_file_def infer_examples excluded_def double_exts_def Let_def
        del: load_rows.simps)

section \<open>Facts about polling and uploading\<close>

lemma find_trip_id_None:
  "find_trip_id objs = None \<longleftrightarrow> list_all (\<lambda>obj. \<not> names_trip obj) objs"
  by (induction objs) (auto simp: names_trip_def split: option.splits)

lemma find_trip_id_first:
  assumes "list_all (\<lambda>obj. \<not> names_trip obj) before"
    and "obj_type obj = Some ''trip''" and "obj_trip_id obj = Some x" and "x \<noteq> 0"
  shows "find_trip_id (before @ obj # after) = Some x"
  using assms by (induction before) (auto simp: names_trip_def split: option.splits)

lemma polled_0 [simp]: "polled 0 task_id st = st"
  by (simp add: polled_def)

lemma polled_Suc: "polled n task_id (send (GetTaskStatus task_id) st) = polled (Suc n) task_id st"
  by (simp add: polled_def send_def replicate_app_Cons_same)

lemma poll_loop_step:
  assumes "\<not> dry_run c" and "float_less now deadline" and "still_processing reply"
    and "time_sleep interval = Returned ()"
  shows "poll_loop c task_id interval deadline ((now, reply) # ticks) st
         = poll_loop c task_id interval deadline ticks (send (GetTaskStatus task_id) st)"
  using assms
  by (auto simp: still_processing_def Let_def find_trip_id_None [symmetric]
      split: status_reply.splits status_body.splits list.splits option.splits if_splits)

lemma poll_loop_sleep_refused:
  assumes "\<not> dry_run c" and "float_less now deadline" and "still_processing reply"
    and "time_sleep interval = Raised e"
  shows "poll_loop c task_id interval deadline ((now, reply) # ticks) st
         = Some (Raised e, send (GetTaskStatus task_id) st)"
  using assms
  by (auto simp: still_processing_def Let_def find_trip_id_None [symmetric]
      split: status_reply.splits status_body.splits list.splits option.splits if_splits)

lemma poll_loop_prefix:
  assumes "\<not> dry_run c"
    and "\<forall>(now, reply) \<in> set pre. float_less now deadline \<and> still_processing reply"
    and "pre \<noteq> [] \<Longrightarrow> time_sleep interval = Returned ()"
  shows "poll_loop c task_id interval deadline (pre @ ticks) st
         = poll_loop c task_id interval deadline ticks (polled (length pre) task_id st)"
  using assms(2,3)
proof (induction pre arbitrary: st)
  case Nil
  show ?case by simp
next
  case (Cons tick pre)
  obtain now reply where tick: "tick = (now, reply)" by (cases tick)
  from Cons.prems(1) tick have h: "float_less now deadline" "still_processing reply"
    and rest: "\<forall>(now, reply) \<in> set pre. float_less now deadline \<and> still_processing reply"
    by auto
  have ok: "time_sleep interval = Returned ()"
    using Cons.prems(2) by simp
  have "poll_loop c task_id interval deadline ((tick # pre) @ ticks) st
        = poll_loop c task_id interval deadline (pre @ ticks) (send (GetTaskStatus task_id) st)"
    using poll_loop_step [OF assms(1) h ok] tick by simp
  also have "\<dots> = poll_loop c task_id interval deadline ticks
                      (polled (length pre) task_id (send (GetTaskStatus task_id) st))"
    by (rule Cons.IH [OF rest]) (rule ok)
  finally show ?case by (simp add: polled_Suc)
qed

lemma poll_loop_deadline:
  "\<not> float_less now deadline \<Longrightarrow>
   poll_loop c task_id interval deadline ((now, reply) # ticks) st = Some (Returned None, st)"
  by simp

lemma poll_loop_success:
  assumes "\<not> dry_run c" and "float_less now deadline"
    and "response_code tsk = Some ''success''" and "find_trip_id (associated_objects tsk) = Some x"
  shows "poll_loop c task_id interval deadline ((now, StatusHttp 200 (StatusTasks (tsk # others))) # ticks) st
         = Some (Returned (Some x), send (GetTaskStatus task_id) st)"
  using assms by (simp add: Let_def)

lemma poll_loop_duplicate:
  assumes "\<not> dry_run c" and "float_less now deadline"
    and "response_code tsk = Some ''duplicate''"
  shows "poll_loop c task_id interval deadline ((now, StatusHttp 200 (StatusTasks (tsk # others))) # ticks) st
         = Some (Returned (Some DUPLICATE_TRIP), send (GetTaskStatus task_id) st)"
  using assms by (simp add: Let_def)

lemma polled_books [simp]: "same_books st (polled n task_id st)"
  by (simp add: same_books_def polled_def)

lemma polled_requests [simp]:
  "requests (polled n task_id st) = requests st @ replicate n (GetTaskStatus task_id)"
  by (simp add: polled_def)

lemma polled_fields [simp]:
  "uploaded_log (polled n task_id st) = uploaded_log st"
  "successes (polled n task_id st) = successes st"
  "skipped (polled n task_id st) = skipped st"
  "errors (polled n task_id st) = errors st"
  "auth_token (polled n task_id st) = auth_token st"
  by (simp_all add: polled_def)

lemma poll_loop_tick:
  "poll_loop c task_id interval deadline ((now, reply) # ticks) st
     = poll_loop c task_id interval deadline ticks (send (GetTaskStatus task_id) st)
   \<or> (\<exists>r. poll_loop c task_id interval deadline ((now, reply) # ticks) st = Some (r, st))
   \<or> (\<exists>r. poll_loop c task_id interval deadline ((now, reply) # ticks) st
            = Some (r, send (GetTaskStatus task_id) st))"
  by (cases "time_sleep interval")
    (simp_all add: Let_def
      split: status_reply.splits status_body.splits list.splits option.splits)

lemma poll_loop_polled:
  assumes "poll_loop c task_id interval deadline ticks st = Some (r, st1)"
  shows "\<exists>n. st1 = polled n task_id st"
  using assms
proof (induction ticks arbitrary: st)
  case Nil
  then show ?case by simp
next
  case (Cons tick ticks)
  obtain now reply where tick: "tick = (now, reply)" by (cases tick)
  from poll_loop_tick [of c task_id interval deadline now reply ticks st]
  consider
    (go) "poll_loop c task_id interval deadline ((now, reply) # ticks) st
            = poll_loop c task_id interval deadline ticks (send (GetTaskStatus task_id) st)"
  | (stop0) r0 where "poll_loop c task_id interval deadline ((now, reply) # ticks) st = Some (r0, st)"
  | (stop1) r1 where "poll_loop c task_id interval deadline ((now, reply) # ticks) st
                        = Some (r1, send (GetTaskStatus task_id) st)"
    by blast
  then show ?case
  proof cases
    case go
    with Cons.prems tick
    have "poll_loop c task_id interval deadline ticks (send (GetTaskStatus task_id) st) = Some (r, st1)"
      by simp
    then obtain n where "st1 = polled n task_id (send (GetTaskStatus task_id) st)"
      using Cons.IH by blast
    then have "st1 = polled (Suc n) task_id st" by (simp add: polled_Suc)
    then show ?thesis ..
  next
    case stop0
    with Cons.prems tick have "st1 = polled 0 task_id st" by simp
    then show ?thesis ..
  next
    case stop1
    with Cons.prems tick have "st1 = polled (Suc 0) task_id st"
      by (simp add: polled_Suc [symmetric])
    then show ?thesis ..
  qed
qed

lemma ensure_auth_requests:
  "requests (snd (ensure_auth c env st)) = requests st
   \<or> requests (snd (ensure_auth c env st)) = requests st @ [GetCurrentUser]"
  by (simp add: ensure_auth_def Let_def split: auth_reply.splits auth_body.splits)

lemma upload_trip_frame:
  assumes "upload_trip_from_file c f ivl tmo env st = Some (r, st1)"
  shows "same_books st st1
         \<and> (\<exists>rs. requests st1 = requests st @ rs \<and> list_all (\<lambda>q. \<not> is_media_request q) rs)"
proof -
  obtain o1 s1 where ea: "ensure_auth c env st = (o1, s1)" by (cases "ensure_auth c env st")
  have b1: "same_books st s1" using ensure_auth_books [of st c env] ea by simp
  have "requests s1 = requests st \<or> requests s1 = requests st @ [GetCurrentUser]"
    using ensure_auth_requests [of c env st] ea by simp
  then obtain rs1 where r1: "requests s1 = requests st @ rs1"
    and n1: "list_all (\<lambda>q. \<not> is_media_request q) rs1"
    by (auto simp: is_media_request_def)
  let ?s2 = "send (PostTrip f) s1"
  have r2: "requests ?s2 = requests st @ (rs1 @ [PostTrip f])"
    and n2: "list_all (\<lambda>q. \<not> is_media_request q) (rs1 @ [PostTrip f])"
    and b2: "same_books st ?s2"
    using r1 n1 b1 by (simp_all add: is_media_request_def same_books_def)
  have direct: "st1 = s1 \<or> st1 = ?s2
      \<or> (\<exists>task_id. poll_task_for_trip c task_id ivl tmo env ?s2 = Some (r, st1))"
    using assms ea
    by (auto simp: upload_trip_from_file_def Let_def
        split: outcome.splits if_splits post_reply.splits post_body.splits option.splits)
  then consider "st1 = s1" | "st1 = ?s2"
    | task_id where "poll_task_for_trip c task_id ivl tmo env ?s2 = Some (r, st1)" by blast
  then show ?thesis
  proof cases
    case 1
    with b1 r1 n1 show ?thesis by blast
  next
    case 2
    with b2 r2 n2 show ?thesis by blast
  next
    case 3
    then have "poll_loop c task_id ivl (float_add (poll_started env) tmo) (poll_ticks env) ?s2 = Some (r, st1)"
      by (simp add: poll_task_for_trip_def Let_def)
    then have "\<exists>n. st1 = polled n task_id ?s2" by (rule poll_loop_polled)
    then obtain n where st1: "st1 = polled n task_id ?s2" ..
    have "requests st1 = requests st @ (rs1 @ [PostTrip f] @ replicate n (GetTaskStatus task_id))"
      using st1 r2 by simp
    moreover have "list_all (\<lambda>q. \<not> is_media_request q)
                     (rs1 @ [PostTrip f] @ replicate n (GetTaskStatus task_id))"
      using n1 by (auto simp: is_media_request_def list_all_iff)
    moreover have "same_books st st1"
      using st1 b2 by (simp add: same_books_def)
    ultimately show ?thesis by blast
  qed
qed

lemma upload_duplicate_from_poll:
  assumes "upload_trip_from_file c f ivl tmo env st = Some (Returned (Some DUPLICATE_TRIP), st1)"
  shows "\<not> dry_run c
         \<and> (\<exists>task_id st0. poll_task_for_trip c task_id ivl tmo env st0
                              = Some (Returned (Some DUPLICATE_TRIP), st1))"
  using assms
  by (cases "ensure_auth c env st")
    (auto simp: upload_trip_from_file_def Let_def DUPLICATE_TRIP_def
      split: outcome.splits if_splits post_reply.splits post_body.splits option.splits)

section \<open>Claims about polling, duplicates and authentication\<close>

text \<open>
  C8. Outside dry-run mode and for a poll interval that \<open>time.sleep\<close> accepts (a
  non-negative number of seconds within its range), a poll round before the deadline whose
  answer reports \<open>success\<close> but whose associated objects hold no trip entry with an
  identifier leaves the poll running: the loop goes on with the next round, one status
  request sent. If a later
  round before the deadline reports \<open>success\<close> with a trip entry that has an identifier
  \<open>x\<close> (the first such entry, an identifier being a non-zero number), and the rounds in
  between leave the task in processing, the poll returns \<open>x\<close>; in the two-round scenario it
  returns \<open>x\<close> after exactly two status requests.
\<close>

theorem success_without_trip_keeps_polling:
  assumes "\<not> dry_run c"
    and "float_less t1 deadline" and "response_code tsk1 = Some ''success''"
    and "list_all (\<lambda>obj. \<not> names_trip obj) (associated_objects tsk1)"
    and "\<forall>(now, reply) \<in> set mid. float_less now deadline \<and> still_processing reply"
    and "float_less t2 deadline" and "response_code tsk2 = Some ''success''"
    and "associated_objects tsk2 = before @ obj # after"
    and "list_all (\<lambda>obj. \<not> names_trip obj) before"
    and "obj_type obj = Some ''trip''" and "obj_trip_id obj = Some x" and "x \<noteq> 0"
    and "time_sleep interval = Returned ()"
  shows "poll_loop c task_id interval deadline
            ((t1, StatusHttp 200 (StatusTasks (tsk1 # others1))) # ticks) st
          = poll_loop c task_id interval deadline ticks (send (GetTaskStatus task_id) st)
         \<and> poll_loop c task_id interval deadline
              ((t1, StatusHttp 200 (StatusTasks (tsk1 # others1)))
               # mid @ (t2, StatusHttp 200 (StatusTasks (tsk2 # others2))) # rest) st
            = Some (Returned (Some x), polled (length mid + 2) task_id st)
         \<and> poll_loop c task_id interval deadline
              [(t1, StatusHttp 200 (StatusTasks (tsk1 # others1))),
               (t2, StatusHttp 200 (StatusTasks (tsk2 # others2)))] st
            = Some (Returned (Some x), polled 2 task_id st)"
proof -
  let ?r1 = "StatusHttp 200 (StatusTasks (tsk1 # others1))"
  let ?r2 = "StatusHttp 200 (StatusTasks (tsk2 # others2))"
  have sp: "still_processing ?r1"
    using assms(3,4) by (simp add: still_processing_def)
  have step: "poll_loop c task_id interval deadline ((t1, ?r1) # tl) s
              = poll_loop c task_id interval deadline tl (send (GetTaskStatus task_id) s)" for tl s
    using assms(1,2) sp assms(13) by (rule poll_loop_step)
  have found: "find_trip_id (associated_objects tsk2) = Some x"
    using assms(8) find_trip_id_first [OF assms(9,10,11,12)] by simp
  have last: "poll_loop c task_id interval deadline ((t2, ?r2) # tl) s
              = Some (Returned (Some x), send (GetTaskStatus task_id) s)" for tl s
    using assms(1,6,7) found by (rule poll_loop_success)
  have general: "poll_loop c task_id interval deadline ((t1, ?r1) # mid @ (t2, ?r2) # tl) st
                 = Some (Returned (Some x), polled (length mid + 2) task_id st)"
    if "\<forall>(now, reply) \<in> set mid. float_less now deadline \<and> still_processing reply" for mid tl
  proof -
    have "poll_loop c task_id interval deadline ((t1, ?r1) # mid @ (t2, ?r2) # tl) st
          = poll_loop c task_id interval deadline (mid @ (t2, ?r2) # tl) (send (GetTaskStatus task_id) st)"
      by (rule step)
    also have "\<dots> = poll_loop c task_id interval deadline ((t2, ?r2) # tl)
                        (polled (length mid) task_id (send (GetTaskStatus task_id) st))"
      by (rule poll_loop_prefix [OF assms(1) that]) (rule assms(13))
    also have "\<dots> = Some (Returned (Some x), send (GetTaskStatus task_id)
                        (polled (length mid) task_id (send (GetTaskStatus task_id) st)))"
      by (rule last)
    also have "send (GetTaskStatus task_id)
                 (polled (length mid) task_id (send (GetTaskStatus task_id) st))
               = polled (length mid + 2) task_id st"
      by (simp add: polled_def send_def replicate_append_same)
    finally show ?thesis .
  qed
  have two: "poll_loop c task_id interval deadline [(t1, ?r1), (t2, ?r2)] st
             = Some (Returned (Some x), polled 2 task_id st)"
    using general [of "[]" "[]"] by (simp add: numeral_2_eq_2 del: poll_loop.simps)
  from step [of ticks st] general [OF assms(5), of rest] two show ?thesis by blast
qed

text \<open>
  C3. For every activity that reaches the poll (authenticated, file read, submission
  answered with a task identifier) and whose status answers all leave the task in
  processing until a clock reading is no longer before the deadline
  \<open>poll_started + poll_timeout\<close>, the poll returns the failure value \<open>None\<close> at that reading,
  having sent one status request per earlier round; the loop body of \<open>main\<close> then returns
  with the error count increased by exactly one and with the uploaded log, the success
  count and the skipped count unchanged. When there is an earlier round, the poll interval
  is one that \<open>time.sleep\<close> accepts (a non-negative number of seconds within its range).
\<close>

theorem poll_timeout_counts_one_error:
  assumes "\<not> excluded tids (infer_activity_id_from_filename f)"
    and "force a \<or> infer_activity_id_from_filename f \<notin> already"
    and "idx (infer_activity_id_from_filename f) = Some meta"
    and "ensure_auth c env st = (Returned (), st1)"
    and "file_readable env" and "\<not> dry_run c"
    and "post_reply env = PostHttp code (PostDict (Some task_id))"
    and "ok_status code" and "task_id \<noteq> 0"
    and "poll_ticks env = pre @ (now, reply) # rest"
    and "\<forall>(t, r) \<in> set pre. float_less t (float_add (poll_started env) (poll_timeout a))
                              \<and> still_processing r"
    and "\<not> float_less now (float_add (poll_started env) (poll_timeout a))"
    and "pre \<noteq> [] \<Longrightarrow> time_sleep (poll_interval a) = Returned ()"
  shows "poll_task_for_trip c task_id (poll_interval a) (poll_timeout a) env (send (PostTrip f) st1)
           = Some (Returned None, polled (length pre) task_id (send (PostTrip f) st1))
         \<and> (\<exists>st2. process_file c a idx tids already env f st = Some st2
               \<and> errors st2 = errors st + 1
               \<and> uploaded_log st2 = uploaded_log st
               \<and> successes st2 = successes st \<and> skipped st2 = skipped st)"
proof -
  let ?s = "send (PostTrip f) st1"
  let ?dl = "float_add (poll_started env) (poll_timeout a)"
  have "poll_loop c task_id (poll_interval a) ?dl (pre @ (now, reply) # rest) ?s
        = poll_loop c task_id (poll_interval a) ?dl ((now, reply) # rest) (polled (length pre) task_id ?s)"
    by (rule poll_loop_prefix [OF assms(6,11)]) (rule assms(13))
  also have "\<dots> = Some (Returned None, polled (length pre) task_id ?s)"
    using assms(12) by (rule poll_loop_deadline)
  finally have poll: "poll_task_for_trip c task_id (poll_interval a) (poll_timeout a) env ?s
                      = Some (Returned None, polled (length pre) task_id ?s)"
    using assms(10) by (simp add: poll_task_for_trip_def)
  have up: "upload_trip_from_file c f (poll_interval a) (poll_timeout a) env st
            = Some (Returned None, polled (length pre) task_id ?s)"
    using assms(4,5,6,7,8,9) poll by (simp add: upload_trip_from_file_def Let_def)
  have bk: "same_books st st1"
    using ensure_auth_books [of st c env] assms(4) by simp
  have "process_file c a idx tids already env f st
        = Some ((polled (length pre) task_id ?s)
                  \<lparr>errors := errors (polled (length pre) task_id ?s) + 1\<rparr>)"
    using assms(1,2,3) up by (auto simp: process_file_def Let_def DUPLICATE_TRIP_def)
  with bk poll show ?thesis by (simp add: same_books_def)
qed

text \<open>
  C2. For every activity that is processed (not excluded, not skipped, metadata found) and
  whose upload ends with the poll returning the duplicate value, the loop body of \<open>main\<close>
  appends the identifier to the uploaded log (unless dry-run is active), sends no request
  of the media-upload path, increments the skipped count by one and leaves the error and
  success counts unchanged.
\<close>

theorem duplicate_is_recorded_and_skipped:
  assumes "\<not> excluded tids (infer_activity_id_from_filename f)"
    and "force a \<or> infer_activity_id_from_filename f \<notin> already"
    and "idx (infer_activity_id_from_filename f) = Some meta"
    and "upload_trip_from_file c f (poll_interval a) (poll_timeout a) env st
           = Some (Returned (Some DUPLICATE_TRIP), st1)"
  shows "(\<exists>task_id st0. poll_task_for_trip c task_id (poll_interval a) (poll_timeout a) env st0
                           = Some (Returned (Some DUPLICATE_TRIP), st1))
         \<and> (\<exists>st2. process_file c a idx tids already env f st = Some st2
               \<and> uploaded_log st2
                   = (if dry_run c then uploaded_log st
                      else uploaded_log st @ [infer_activity_id_from_filename f])
               \<and> skipped st2 = skipped st + 1
               \<and> errors st2 = errors st \<and> successes st2 = successes st
               \<and> (\<exists>rs. requests st2 = requests st @ rs
                          \<and> list_all (\<lambda>q. \<not> is_media_request q) rs))"
proof -
  from upload_duplicate_from_poll [OF assms(4)]
  have a: "\<exists>task_id st0. poll_task_for_trip c task_id (poll_interval a) (poll_timeout a) env st0
                           = Some (Returned (Some DUPLICATE_TRIP), st1)" by blast
  from upload_trip_frame [OF assms(4)]
  have bk: "same_books st st1"
    and rq: "\<exists>rs. requests st1 = requests st @ rs \<and> list_all (\<lambda>q. \<not> is_media_request q) rs"
    by blast+
  let ?s2 = "if \<not> dry_run c then append_uploaded (infer_activity_id_from_filename f) st1 else st1"
  have p: "process_file c a idx tids already env f st = Some (?s2\<lparr>skipped := skipped ?s2 + 1\<rparr>)"
    using assms by (auto simp: process_file_def Let_def)
  from bk rq have "uploaded_log (?s2\<lparr>skipped := skipped ?s2 + 1\<rparr>)
                   = (if dry_run c then uploaded_log st
                      else uploaded_log st @ [infer_activity_id_from_filename f])
               \<and> skipped (?s2\<lparr>skipped := skipped ?s2 + 1\<rparr>) = skipped st + 1
               \<and> errors (?s2\<lparr>skipped := skipped ?s2 + 1\<rparr>) = errors st
               \<and> successes (?s2\<lparr>skipped := skipped ?s2 + 1\<rparr>) = successes st
               \<and> (\<exists>rs. requests (?s2\<lparr>skipped := skipped ?s2 + 1\<rparr>) = requests st @ rs
                          \<and> list_all (\<lambda>q. \<not> is_media_request q) rs)"
    by (simp add: same_books_def)
  with p a show ?thesis by blast
qed

text \<open>
  C9, as the code has it. An authentication failure (a status other than 200, or a token
  field that is missing or empty) is raised inside the upload of the current file and
  caught by the loop of \<open>main\<close>: the file costs one authentication request and counts as
  exactly one error, nothing is submitted or written to the uploaded log for it, no token
  is held afterwards, and the run goes on with the remaining files from that state.
\<close>

theorem auth_failure_counts_one_error_and_run_continues:
  assumes "\<not> excluded tids (infer_activity_id_from_filename f)"
    and "force a \<or> infer_activity_id_from_filename f \<notin> already"
    and "idx (infer_activity_id_from_filename f) = Some meta"
    and "\<not> truthy (auth_token st)" and "truthy (email c)" and "truthy (password c)"
    and "\<not> dry_run c" and "auth_refused (auth_reply (envs f))"
  shows "\<exists>st1. process_file c a idx tids already (envs f) f st = Some st1
           \<and> requests st1 = requests st @ [GetCurrentUser]
           \<and> uploaded_log st1 = uploaded_log st
           \<and> errors st1 = errors st + 1
           \<and> successes st1 = successes st \<and> skipped st1 = skipped st
           \<and> \<not> truthy (auth_token st1)
           \<and> process_files c a idx tids already envs (f # fs) st
               = process_files c a idx tids already envs fs st1"
proof -
  have "\<exists>e s1. ensure_auth c (envs f) st = (Raised e, s1)
          \<and> requests s1 = requests st @ [GetCurrentUser]
          \<and> same_books st s1 \<and> \<not> truthy (auth_token s1)"
    using assms(4,5,6,7,8)
    by (auto simp: ensure_auth_def auth_refused_def Let_def same_books_def
        split: auth_reply.splits auth_body.splits)
  then obtain e s1 where ea: "ensure_auth c (envs f) st = (Raised e, s1)"
    and rq: "requests s1 = requests st @ [GetCurrentUser]"
    and bk: "same_books st s1" and tk: "\<not> truthy (auth_token s1)" by blast
  have up: "upload_trip_from_file c f (poll_interval a) (poll_timeout a) (envs f) st = Some (Raised e, s1)"
    using ea by (simp add: upload_trip_from_file_def)
  have p: "process_file c a idx tids already (envs f) f st
           = Some (s1\<lparr>errors := errors s1 + 1\<rparr>)"
    using assms(1,2,3) up by (auto simp: process_file_def Let_def)
  with rq bk tk show ?thesis by (simp add: same_books_def)
qed

section \<open>The claims on example runs\<close>

lemma example_state: "initial_state None None
  = \<lparr>auth_token = None, requests = [], uploaded_log = [], successes = 0, skipped = 0, errors = 0\<rparr>"
  by (simp add: initial_state_def truthy_def)

theorem success_without_trip_keeps_polling_witness:
  "poll_loop example_client 7 (Finite 2) (Finite 300)
     [(1, StatusHttp 200 (StatusTasks [trip_task ''success'' []])),
      (3, StatusHttp 200 (StatusTasks [trip_task ''success'' [trip_object 99]]))]
     (initial_state None None)
   = Some (Returned (Some 99),
           (initial_state None None)\<lparr>requests := [GetTaskStatus 7, GetTaskStatus 7]\<rparr>)"
proof -
  have h1: "\<not> dry_run example_client" by (simp add: example_client_def)
  have h2: "float_less 1 (Finite 300)" by (simp add: float_less_def)
  have h3: "response_code (trip_task ''success'' []) = Some ''success''"
    by (simp add: trip_task_def)
  have h4: "list_all (\<lambda>obj. \<not> names_trip obj) (associated_objects (trip_task ''success'' []))"
    by (simp add: trip_task_def)
  have h5: "\<forall>(now, reply) \<in> set ([] :: (real \<times> status_reply) list).
              float_less now (Finite 300) \<and> still_processing reply" by simp
  have h6: "float_less 3 (Finite 300)" by (simp add: float_less_def)
  have h7: "response_code (trip_task ''success'' [trip_object 99]) = Some ''success''"
    by (simp add: trip_task_def)
  have h8: "associated_objects (trip_task ''success'' [trip_object 99]) = [] @ trip_object 99 # []"
    by (simp add: trip_task_def)
  have h9: "list_all (\<lambda>obj. \<not> names_trip obj) []" by simp
  have h10: "obj_type (trip_object 99) = Some ''trip''" by (simp add: trip_object_def)
  have h11: "obj_trip_id (trip_object 99) = Some 99" by (simp add: trip_object_def)
  have h12: "(99::int) \<noteq> 0" by simp
  have h13: "time_sleep (Finite 2) = Returned ()"
    by (simp add: time_sleep_def sleep_max_def)
  note t = success_without_trip_keeps_polling [OF h1 h2 h3 h4 h5 h6 h7 h8 h9 h10 h11 h12 h13,
      of 7 "[]" "[]" "initial_state None None" "[]" "[]"]
  from t [THEN conjunct2, THEN conjunct2]
  show ?thesis by (simp add: polled_def numeral_2_eq_2 example_state del: poll_loop.simps)
qed

lemma ride_meta:
  "load_rows ''.'' Map.empty [mk_row ''42'' ''Ride'' ''activities/42.fit.gz'']
     (infer_activity_id_from_filename ''42.fit'')
   = Some \<lparr>activity_id = ''42'', name = ''Ride'', description = [], media_paths = []\<rparr>"
  by (simp only: infer_examples ride_index)

lemma example_auth:
  "ensure_auth example_client example_env (initial_state None None)
   = (Returned (), \<lparr>auth_token = Some ''token'', requests = [GetCurrentUser], uploaded_log = [],
                     successes = 0, skipped = 0, errors = 0\<rparr>)"
  by (simp add: ensure_auth_def example_client_def example_env_def example_state truthy_def
      send_def)

lemma example_env_fields:
  "auth_reply example_env = AuthHttp 200 (AuthBody (Some ''token''))"
  "file_readable example_env"
  "post_reply example_env = PostHttp 200 (PostDict (Some 7))"
  "poll_started example_env = 0"
  "poll_ticks example_env
   = [(1, StatusHttp 200 (StatusTasks [trip_task ''success'' [trip_object 99]]))]"
  "media_exists example_env = (\<lambda>p. False)"
  by (simp_all add: example_env_def)

lemma example_auth_any:
  assumes "auth_reply env = AuthHttp 200 (AuthBody (Some ''token''))"
  shows "ensure_auth example_client env (initial_state None None)
   = (Returned (), \<lparr>auth_token = Some ''token'', requests = [GetCurrentUser], uploaded_log = [],
                     successes = 0, skipped = 0, errors = 0\<rparr>)"
  using assms
  by (simp add: ensure_auth_def example_client_def example_state truthy_def send_def)

lemma example_auth_ticks:
  "ensure_auth example_client (example_env\<lparr>poll_ticks := ticks\<rparr>) (initial_state None None)
   = (Returned (), \<lparr>auth_token = Some ''token'', requests = [GetCurrentUser], uploaded_log = [],
                     successes = 0, skipped = 0, errors = 0\<rparr>)"
  by (rule example_auth_any) (simp add: example_env_def)

theorem poll_timeout_counts_one_error_witness:
  "poll_task_for_trip example_client 7 (poll_interval example_args) (poll_timeout example_args)
     (example_env\<lparr>poll_ticks :=
        [(1, StatusHttp 200 (StatusTasks [trip_task ''processing'' []])), (301, StatusRaised)]\<rparr>)
     \<lparr>auth_token = Some ''token'', requests = [GetCurrentUser, PostTrip ''42.fit''],
      uploaded_log = [], successes = 0, skipped = 0, errors = 0\<rparr>
   = Some (Returned None,
           \<lparr>auth_token = Some ''token'',
            requests = [GetCurrentUser, PostTrip ''42.fit'', GetTaskStatus 7],
            uploaded_log = [], successes = 0, skipped = 0, errors = 0\<rparr>)
   \<and> (\<exists>st2. process_file example_client example_args
                (load_rows ''.'' Map.empty [mk_row ''42'' ''Ride'' ''activities/42.fit.gz''])
                None {}
                (example_env\<lparr>poll_ticks :=
                   [(1, StatusHttp 200 (StatusTasks [trip_task ''processing'' []])),
                    (301, StatusRaised)]\<rparr>)
                ''42.fit'' (initial_state None None) = Some st2
             \<and> errors st2 = 1 \<and> uploaded_log st2 = [] \<and> successes st2 = 0 \<and> skipped st2 = 0)"
proof -
  let ?ticks = "[(1, StatusHttp 200 (StatusTasks [trip_task ''processing'' []])),
                 (301, StatusRaised)]"
  let ?env = "example_env\<lparr>poll_ticks := ?ticks\<rparr>"
  have h1: "\<not> excluded None (infer_activity_id_from_filename ''42.fit'')"
    by (simp add: excluded_def)
  have h2: "force example_args \<or> infer_activity_id_from_filename ''42.fit'' \<notin> {}" by simp
  note h3 = ride_meta
  note h4 = example_auth_ticks [of ?ticks]
  have h5: "file_readable ?env" by (simp add: example_env_def)
  have h6: "\<not> dry_run example_client" by (simp add: example_client_def)
  have h7: "post_reply ?env = PostHttp 200 (PostDict (Some 7))" by (simp add: example_env_def)
  have h8: "ok_status 200" by (simp add: ok_status_def)
  have h9: "(7::int) \<noteq> 0" by simp
  have h10: "poll_ticks ?env
             = [(1, StatusHttp 200 (StatusTasks [trip_task ''processing'' []]))]
               @ (301, StatusRaised) # []" by simp
  have h11: "\<forall>(t, r) \<in> set [(1, StatusHttp 200 (StatusTasks [trip_task ''processing'' []]))].
               float_less t (float_add (poll_started ?env) (poll_timeout example_args))
               \<and> still_processing r"
    by (simp add: example_env_def example_args_def still_processing_def trip_task_def
        float_less_def float_add_def)
  have h12: "\<not> float_less 301 (float_add (poll_started ?env) (poll_timeout example_args))"
    by (simp add: example_env_def example_args_def float_less_def float_add_def)
  have h13: "time_sleep (poll_interval example_args) = Returned ()"
    by (simp add: example_args_def time_sleep_def sleep_max_def)
  from poll_timeout_counts_one_error
         [where idx = "load_rows ''.'' Map.empty [mk_row ''42'' ''Ride'' ''activities/42.fit.gz'']",
          OF h1 h2 h3 h4 h5 h6 h7 h8 h9 h10 h11 h12 h13]
  show ?thesis
    by (auto simp: polled_def send_def example_state simp del: load_rows.simps)
qed

lemma duplicate_upload:
  "upload_trip_from_file example_client ''42.fit'' (poll_interval example_args)
     (poll_timeout example_args)
     (example_env\<lparr>poll_ticks :=
        [(1, StatusHttp 200 (StatusTasks [trip_task ''duplicate'' []]))]\<rparr>)
     (initial_state None None)
   = Some (Returned (Some DUPLICATE_TRIP),
           \<lparr>auth_token = Some ''token'',
            requests = [GetCurrentUser, PostTrip ''42.fit'', GetTaskStatus 7],
            uploaded_log = [], successes = 0, skipped = 0, errors = 0\<rparr>)"
proof -
  let ?env = "example_env\<lparr>poll_ticks :=
        [(1, StatusHttp 200 (StatusTasks [trip_task ''duplicate'' []]))]\<rparr>"
  have c: "\<not> dry_run example_client" by (simp add: example_client_def)
  show ?thesis
    unfolding upload_trip_from_file_def example_auth_ticks
    by (simp add: example_env_fields c ok_status_def send_def poll_task_for_trip_def
        example_args_def trip_task_def float_less_def float_add_def)
qed

theorem duplicate_is_recorded_and_skipped_witness:
  "\<exists>st2. process_file example_client example_args
           (load_rows ''.'' Map.empty [mk_row ''42'' ''Ride'' ''activities/42.fit.gz''])
           None {}
           (example_env\<lparr>poll_ticks :=
              [(1, StatusHttp 200 (StatusTasks [trip_task ''duplicate'' []]))]\<rparr>)
           ''42.fit'' (initial_state None None) = Some st2
        \<and> uploaded_log st2 = [''42''] \<and> skipped st2 = 1 \<and> errors st2 = 0 \<and> successes st2 = 0"
proof -
  have h1: "\<not> excluded None (infer_activity_id_from_filename ''42.fit'')"
    by (simp add: excluded_def)
  have h2: "force example_args \<or> infer_activity_id_from_filename ''42.fit'' \<notin> {}" by simp
  have d: "\<not> dry_run example_client" by (simp add: example_client_def)
  note t = duplicate_is_recorded_and_skipped
      [where idx = "load_rows ''.'' Map.empty [mk_row ''42'' ''Ride'' ''activities/42.fit.gz'']",
       OF h1 h2 ride_meta duplicate_upload]
  from t [THEN conjunct2] d
  show ?thesis
    by (auto simp: example_state infer_examples simp del: load_rows.simps)
qed

theorem auth_failure_counts_one_error_and_run_continues_witness:
  "\<exists>st1. process_file example_client example_args
           (load_rows ''.'' Map.empty [mk_row ''42'' ''Ride'' ''activities/42.fit.gz''])
           None {} (example_env\<lparr>auth_reply := AuthHttp 401 (AuthBody None)\<rparr>)
           ''42.fit'' (initial_state None None) = Some st1
        \<and> requests st1 = [GetCurrentUser] \<and> uploaded_log st1 = [] \<and> errors st1 = 1"
proof -
  let ?envs = "\<lambda>f :: string. example_env\<lparr>auth_reply := AuthHttp 401 (AuthBody None)\<rparr>"
  have h1: "\<not> excluded None (infer_activity_id_from_filename ''42.fit'')"
    by (simp add: excluded_def)
  have h2: "force example_args \<or> infer_activity_id_from_filename ''42.fit'' \<notin> {}" by simp
  have h4: "\<not> truthy (auth_token (initial_state None None))" by (simp add: example_state truthy_def)
  have h5: "truthy (email example_client)" by (simp add: example_client_def truthy_def)
  have h6: "truthy (password example_client)" by (simp add: example_client_def truthy_def)
  have h7: "\<not> dry_run example_client" by (simp add: example_client_def)
  have h8: "auth_refused (auth_reply (?envs ''42.fit''))" by (simp add: auth_refused_def)
  from auth_failure_counts_one_error_and_run_continues
         [where idx = "load_rows ''.'' Map.empty [mk_row ''42'' ''Ride'' ''activities/42.fit.gz'']"
            and envs = ?envs and fs = "[]",
          OF h1 h2 ride_meta h4 h5 h6 h7 h8]
  show ?thesis
    by (auto simp: example_state simp del: load_rows.simps)
qed

text \<open>
  With an interval that \<open>time.sleep\<close> refuses, the first round that does not return ends
  the poll with the exception of \<open>time.sleep\<close>, after one status request.
\<close>

lemma negative_interval_ends_poll:
  "poll_loop example_client 7 (Finite (- 1)) (Finite 300)
     [(1, StatusHttp 200 (StatusTasks [trip_task ''success'' []])),
      (3, StatusHttp 200 (StatusTasks [trip_task ''success'' [trip_object 99]]))]
     (initial_state None None)
   = Some (Raised ValueError, (initial_state None None)\<lparr>requests := [GetTaskStatus 7]\<rparr>)"
  by (simp add: example_client_def float_less_def time_sleep_def sleep_max_def trip_task_def
      send_def example_state)

lemma two_rides_index:
  "load_rows b Map.empty [mk_row ''42'' ''Ride'' ''activities/42.fit.gz'',
                          mk_row ''43'' ''Lap'' ''activities/43.fit.gz''] ''42''
   = Some \<lparr>activity_id = ''42'', name = ''Ride'', description = [], media_paths = []\<rparr>"
  "load_rows b Map.empty [mk_row ''42'' ''Ride'' ''activities/42.fit.gz'',
                          mk_row ''43'' ''Lap'' ''activities/43.fit.gz''] ''43''
   = Some \<lparr>activity_id = ''43'', name = ''Lap'', description = [], media_paths = []\<rparr>"
  by (simp_all add: load_rows_apply ride_keys mk_row_meta strip_def isspace_def del: load_rows.simps)

text \<open>
  C9 as stated fails: authentication is refused for the first file, and the run still
  processes the second one, which authenticates, is submitted, polled and recorded; the
  run ends with one error and one success.
\<close>

theorem run_continues_after_auth_failure:
  "auth_refused (AuthHttp 401 (AuthBody None))
   \<and> main example_client example_args None
        (Some [mk_row ''42'' ''Ride'' ''activities/42.fit.gz'',
               mk_row ''43'' ''Lap'' ''activities/43.fit.gz'']) ''.'' None
        (Some [(''42.fit'', True), (''43.fit'', True)])
        (\<lambda>f. if f = ''42.fit'' then example_env\<lparr>auth_reply := AuthHttp 401 (AuthBody None)\<rparr>
              else example_env)
      = Some (Inr (1, \<lparr>auth_token = Some ''token'',
                         requests = [GetCurrentUser, GetCurrentUser, PostTrip ''43.fit'',
                                     GetTaskStatus 7],
                         uploaded_log = [''43''], successes = 1, skipped = 0, errors = 1\<rparr>))"
  by (simp add: main_def example_client_def example_args_def initial_state_def truthy_def
        load_activity_metadata_def parse_only_def load_uploaded_set_def discover_examples
        process_file_def infer_examples excluded_def two_rides_index upload_trip_from_file_def
        ensure_auth_def example_env_def DUPLICATE_TRIP_def Let_def auth_refused_def
        send_def ok_status_def poll_task_for_trip_def trip_task_def trip_object_def
        append_uploaded_def float_less_def float_add_def
        del: load_rows.simps)

end
